theory Spec2Isabelle
  imports Main "HOL-Library.Word"
begin

unbundle bit_operations_syntax

section \<open>MicroCbor: a shallow embedding of include/microcbor/MicroCbor.hpp\<close>

text \<open>
  The class \<open>MicroCbor\<close> encodes into and decodes from a caller-supplied byte buffer.
  The model keeps the member names of the class.

  \<^item> \<open>uint32_t\<close>, \<open>uint16_t\<close> and \<open>uint8_t\<close> members are words of that width, so
    \<open>+\<close> wraps as in the source. \<open>mDepth\<close> (\<open>int8_t\<close>) is an \<open>int\<close>; the one unguarded
    update (\<open>mDepth -= 1\<close> in \<open>endMap\<close>) wraps through \<open>wrap8\<close>.
  \<^item> The memory \<open>mBuf\<close> points into is the byte list \<open>heap\<close>; \<open>mBuf\<close> itself is an index
    into it, so that a navigator returned by \<open>getMap\<close> shares its parent's memory.
  \<^item> \<open>mMapState\<close> is an array of \<open>CONFIG_MICROCBOR_MAX_NESTING\<close> frames indexed by
    \<open>mDepth\<close>. The model's frame store is a function on \<open>int\<close>, and it agrees with
    the source for the indices \<open>0 ..< CONFIG_MICROCBOR_MAX_NESTING\<close>. At any other index
    the source accesses memory outside the array (with \<open>mDepth = -1\<close> the members
    declared before it), which C++ leaves undefined; the model gives such an index a
    frame of its own, and \<open>frames_in_array\<close> below tells whether a run of encode calls
    ever uses one. A statement about all runs is made for the runs that do not.
  \<^item> A C string is the list of its bytes; \<open>strlen\<close> stops at the first zero byte and
    every byte from there on reads as the terminator. A \<open>const char *\<close> argument
    that may be \<open>nullptr\<close> is a \<open>cstr option\<close>.
\<close>

type_synonym byte = "8 word"
type_synonym cstr = "byte list"

subsection \<open>Encoding constants\<close>

definition kCborPosInt :: byte where "kCborPosInt = 0"
definition kCborNegInt :: byte where "kCborNegInt = 1"
definition kCborByteString :: byte where "kCborByteString = 2"
definition kCborUTF8String :: byte where "kCborUTF8String = 3"
definition kCborArray :: byte where "kCborArray = 4"
definition kCborMap :: byte where "kCborMap = 5"
definition kCborTag :: byte where "kCborTag = 6"
definition kCborSimple :: byte where "kCborSimple = 7"
definition kCborError :: byte where "kCborError = 8"
definition kCborFalse :: byte where "kCborFalse = push_bit 5 kCborSimple OR 20"
definition kCborTrue :: byte where "kCborTrue = push_bit 5 kCborSimple OR 21"
definition kCborNull :: byte where "kCborNull = push_bit 5 kCborSimple OR 22"
definition kCborFloat32 :: byte where "kCborFloat32 = push_bit 5 kCborSimple OR 26"
definition kCborFloat64 :: byte where "kCborFloat64 = push_bit 5 kCborSimple OR 27"

definition kCborTagInvalid :: "16 word" where "kCborTagInvalid = 65535"

definition CONFIG_MICROCBOR_MAX_NESTING :: int where
  "CONFIG_MICROCBOR_MAX_NESTING = 4"

text \<open>The integer types of the template \<open>add<T>\<close> / \<open>get<T>\<close>, and the element types
  of the array overload with their \<open>kCborTagInfo<T>::tag\<close>.\<close>

datatype ity = I8 | I16 | I32 | I64 | U8 | U16 | U32 | U64

fun sizeof :: "ity \<Rightarrow> nat" where
  "sizeof I8 = 1" | "sizeof I16 = 2" | "sizeof I32 = 4" | "sizeof I64 = 8"
| "sizeof U8 = 1" | "sizeof U16 = 2" | "sizeof U32 = 4" | "sizeof U64 = 8"

fun is_signed :: "ity \<Rightarrow> bool" where
  "is_signed I8 = True" | "is_signed I16 = True" | "is_signed I32 = True"
| "is_signed I64 = True" | "is_signed _ = False"

datatype elemT = EInt8 | EInt16 | EInt32 | EInt64 | EUint8 | EUint16 | EUint32 | EUint64
  | EFloat32 | EFloat64

fun elem_size :: "elemT \<Rightarrow> nat" where
  "elem_size EInt8 = 1" | "elem_size EInt16 = 2" | "elem_size EInt32 = 4"
| "elem_size EInt64 = 8" | "elem_size EUint8 = 1" | "elem_size EUint16 = 2"
| "elem_size EUint32 = 4" | "elem_size EUint64 = 8" | "elem_size EFloat32 = 4"
| "elem_size EFloat64 = 8"

fun kCborTagInfo :: "elemT \<Rightarrow> byte" where
  "kCborTagInfo EInt8 = 72" | "kCborTagInfo EInt16 = 77" | "kCborTagInfo EInt32 = 78"
| "kCborTagInfo EInt64 = 79" | "kCborTagInfo EUint8 = 64" | "kCborTagInfo EUint16 = 69"
| "kCborTagInfo EUint32 = 70" | "kCborTagInfo EUint64 = 71" | "kCborTagInfo EFloat32 = 85"
| "kCborTagInfo EFloat64 = 86"

subsection \<open>C strings and memory\<close>

definition strlen :: "cstr \<Rightarrow> nat" where
  "strlen s = length (takeWhile (\<lambda>b. b \<noteq> 0) s)"

definition char_at :: "cstr \<Rightarrow> nat \<Rightarrow> byte" where
  "char_at s i = (if i < strlen s then s ! i else 0)"

text \<open>\<open>poke a v h\<close> is the store \<open>h[a] = v\<close>. The model agrees with the source for the
  addresses inside the heap. A store outside the heap is in the source a write outside the
  object \<open>mBuf\<close> points into, which C++ leaves undefined; the model leaves it out. The
  result and the byte counts of the writer do not depend on the heap.\<close>

definition poke :: "nat \<Rightarrow> byte \<Rightarrow> byte list \<Rightarrow> byte list" where
  "poke a v h = (if a < length h then h[a := v] else h)"

fun memcpy :: "nat \<Rightarrow> byte list \<Rightarrow> byte list \<Rightarrow> byte list" where
  "memcpy a [] h = h"
| "memcpy a (b # bs) h = memcpy (Suc a) bs (poke a b h)"

subsection \<open>The object\<close>

record MapState =
  mapStartPos :: "32 word"
  mapStartCount :: "32 word"
  mapCount :: "16 word"

record MicroCbor =
  heap :: "byte list"
  mBuf :: nat
  mMaxBufLen :: "32 word"
  mBufBytesNeeded :: "32 word"
  mDataOffset :: "32 word"
  mResult :: int
  mReadOnly :: bool
  mNullTerminate :: bool
  mDepth :: int
  mMapState :: "int \<Rightarrow> MapState"

definition wrap8 :: "int \<Rightarrow> int" where
  "wrap8 x = (x + 128) mod 256 - 128"

text \<open>The address of \<open>mBuf[mDataOffset]\<close>.\<close>

definition cursor :: "MicroCbor \<Rightarrow> nat" where
  "cursor s = mBuf s + unat (mDataOffset s)"

text \<open>\<open>initBuffer(void *buf, maxBufLen)\<close> and its \<open>const void *\<close> overload. The buffer
  is given as the memory it lies in and its address there.\<close>

definition initBuffer :: "byte list \<Rightarrow> nat \<Rightarrow> 32 word \<Rightarrow> MicroCbor \<Rightarrow> MicroCbor" where
  "initBuffer h buf maxBufLen s =
     s\<lparr>heap := h, mBuf := buf, mMaxBufLen := maxBufLen, mDepth := -1, mResult := 0,
       mDataOffset := 0, mBufBytesNeeded := 0, mReadOnly := False\<rparr>"

definition initBuffer_const :: "byte list \<Rightarrow> nat \<Rightarrow> 32 word \<Rightarrow> MicroCbor \<Rightarrow> MicroCbor" where
  "initBuffer_const h buf maxBufLen s = (initBuffer h buf maxBufLen s)\<lparr>mReadOnly := True\<rparr>"

text \<open>The constructors. No constructor initialises \<open>mMapState\<close>: its indeterminate
  content is the argument \<open>frames\<close>.\<close>

definition MicroCbor_object :: "(int \<Rightarrow> MapState) \<Rightarrow> bool \<Rightarrow> MicroCbor" where
  "MicroCbor_object frames nullTerminate =
     \<lparr>heap = [], mBuf = 0, mMaxBufLen = 0, mBufBytesNeeded = 0, mDataOffset = 0,
      mResult = 0, mReadOnly = False, mNullTerminate = nullTerminate, mDepth = 0,
      mMapState = frames\<rparr>"

definition MicroCbor_default :: "(int \<Rightarrow> MapState) \<Rightarrow> MicroCbor" where
  "MicroCbor_default frames = initBuffer [] 0 0 (MicroCbor_object frames False)"

definition MicroCbor_rw ::
    "(int \<Rightarrow> MapState) \<Rightarrow> byte list \<Rightarrow> nat \<Rightarrow> 32 word \<Rightarrow> bool \<Rightarrow> MicroCbor" where
  "MicroCbor_rw frames h buf maxBufLen nullTerminate =
     initBuffer h buf maxBufLen (MicroCbor_object frames nullTerminate)"

definition MicroCbor_ro ::
    "(int \<Rightarrow> MapState) \<Rightarrow> byte list \<Rightarrow> nat \<Rightarrow> 32 word \<Rightarrow> bool \<Rightarrow> MicroCbor" where
  "MicroCbor_ro frames h buf maxBufLen nullTerminate =
     initBuffer_const h buf maxBufLen (MicroCbor_object frames nullTerminate)"

definition restart :: "MicroCbor \<Rightarrow> MicroCbor" where
  "restart s = s\<lparr>mDepth := -1, mResult := 0, mDataOffset := 0, mBufBytesNeeded := 0\<rparr>"

definition getResult :: "MicroCbor \<Rightarrow> int" where
  "getResult s = mResult s"

definition bytesSerialized :: "MicroCbor \<Rightarrow> 32 word" where
  "bytesSerialized s = mDataOffset s"

definition bytesNeeded :: "MicroCbor \<Rightarrow> 32 word" where
  "bytesNeeded s = mBufBytesNeeded s"

subsection \<open>The writer\<close>

definition reserveBytes :: "32 word \<Rightarrow> MicroCbor \<Rightarrow> MicroCbor" where
  "reserveBytes n s =
     (let s1 = s\<lparr>mBufBytesNeeded := mBufBytesNeeded s + n\<rparr>
      in if mBufBytesNeeded s1 > mMaxBufLen s1 then s1\<lparr>mResult := -1\<rparr> else s1)"

definition bytesForLength :: "32 word \<Rightarrow> nat" where
  "bytesForLength len = (if len < 24 then 1 else if len < 256 then 2
                          else if len < 0x10000 then 3 else 4)"

definition storeByte :: "byte \<Rightarrow> MicroCbor \<Rightarrow> MicroCbor" where
  "storeByte v s =
     (if mResult s \<noteq> 0 then s
      else s\<lparr>heap := poke (cursor s) v (heap s), mDataOffset := mDataOffset s + 1\<rparr>)"

text \<open>\<open>put bs n s\<close>: the stores \<open>b[0] = ..., b[1] = ...\<close> through \<open>b = mBuf + mDataOffset\<close>
  followed by \<open>mDataOffset += n\<close>, as the fixed-width encoders and the \<open>memcpy\<close> calls do.\<close>

definition put :: "byte list \<Rightarrow> 32 word \<Rightarrow> MicroCbor \<Rightarrow> MicroCbor" where
  "put bs n s = s\<lparr>heap := memcpy (cursor s) bs (heap s), mDataOffset := mDataOffset s + n\<rparr>"

definition be16 :: "16 word \<Rightarrow> byte list" where
  "be16 v = [ucast (drop_bit 8 v), ucast v]"

definition be32 :: "32 word \<Rightarrow> byte list" where
  "be32 v = [ucast (drop_bit 24 v), ucast (drop_bit 16 v), ucast (drop_bit 8 v), ucast v]"

definition be64 :: "64 word \<Rightarrow> byte list" where
  "be64 v = [ucast (drop_bit 56 v), ucast (drop_bit 48 v), ucast (drop_bit 40 v),
             ucast (drop_bit 32 v), ucast (drop_bit 24 v), ucast (drop_bit 16 v),
             ucast (drop_bit 8 v), ucast v]"

definition encodeUInt8 :: "byte \<Rightarrow> byte \<Rightarrow> MicroCbor \<Rightarrow> MicroCbor" where
  "encodeUInt8 t v s =
     (let s1 = reserveBytes 2 s in if mResult s1 = 0 then put [t, v] 2 s1 else s1)"

definition encodeUInt16 :: "byte \<Rightarrow> 16 word \<Rightarrow> MicroCbor \<Rightarrow> MicroCbor" where
  "encodeUInt16 t v s =
     (let s1 = reserveBytes 3 s in if mResult s1 = 0 then put (t # be16 v) 3 s1 else s1)"

definition encodeUInt32 :: "byte \<Rightarrow> 32 word \<Rightarrow> MicroCbor \<Rightarrow> MicroCbor" where
  "encodeUInt32 t v s =
     (let s1 = reserveBytes 5 s in if mResult s1 = 0 then put (t # be32 v) 5 s1 else s1)"

definition encodeUInt64 :: "byte \<Rightarrow> 64 word \<Rightarrow> MicroCbor \<Rightarrow> MicroCbor" where
  "encodeUInt64 t v s =
     (let s1 = reserveBytes 9 s in if mResult s1 = 0 then put (t # be64 v) 9 s1 else s1)"

definition encodeHeader :: "byte \<Rightarrow> 32 word \<Rightarrow> MicroCbor \<Rightarrow> MicroCbor" where
  "encodeHeader majorval len s =
     (if len < 24 then storeByte (push_bit 5 majorval OR ucast len) (reserveBytes 1 s)
      else if len < 256 then
        storeByte (ucast len) (storeByte (push_bit 5 majorval OR 24) (reserveBytes 2 s))
      else if len < 65536 then encodeUInt16 (push_bit 5 majorval OR 25) (ucast len) s
      else encodeUInt32 (push_bit 5 majorval OR 26) len s)"

definition encodeTag :: "16 word \<Rightarrow> MicroCbor \<Rightarrow> MicroCbor" where
  "encodeTag t s =
     (if t < 24 then storeByte (push_bit 5 kCborTag OR ucast t) (reserveBytes 1 s)
      else if t < 256 then
        storeByte (ucast t) (storeByte (push_bit 5 kCborTag OR 24) (reserveBytes 2 s))
      else storeByte (ucast t) (storeByte (ucast (drop_bit 8 t))
             (storeByte (push_bit 5 kCborTag OR 25) (reserveBytes 3 s))))"

definition encodeString :: "cstr \<Rightarrow> bool \<Rightarrow> MicroCbor \<Rightarrow> MicroCbor" where
  "encodeString v nullTerminate s =
     (let len = (if nullTerminate then strlen v + 1 else strlen v);
          s1 = encodeHeader kCborUTF8String (of_nat len) s;
          s2 = reserveBytes (of_nat len) s1
      in if mResult s2 = 0 then put (map (char_at v) [0..<len]) (of_nat len) s2 else s2)"

text \<open>\<open>mMapState[mDepth].mapCount++\<close>, as \<open>encodeMapKey\<close> does it. With \<open>mDepth\<close> outside
  \<open>0 ..< CONFIG_MICROCBOR_MAX_NESTING\<close> the source increments memory outside the array;
  \<open>frames_in_array\<close> tells the runs in which that happens.\<close>

definition bump_mapCount :: "MicroCbor \<Rightarrow> MicroCbor" where
  "bump_mapCount s =
     s\<lparr>mMapState := (mMapState s)
         (mDepth s := (mMapState s (mDepth s))\<lparr>mapCount := mapCount (mMapState s (mDepth s)) + 1\<rparr>)\<rparr>"

definition encodeMapKey :: "cstr option \<Rightarrow> MicroCbor \<Rightarrow> MicroCbor" where
  "encodeMapKey name s =
     (case name of None \<Rightarrow> s
      | Some v \<Rightarrow> if char_at v 0 = 0 then s else encodeString v False (bump_mapCount s))"

definition encodeBytes :: "byte list \<Rightarrow> 32 word \<Rightarrow> MicroCbor \<Rightarrow> MicroCbor" where
  "encodeBytes bytes numBytes s =
     (let s1 = encodeHeader kCborByteString numBytes s;
          s2 = reserveBytes numBytes s1
      in if mResult s2 = 0 then put (take (unat numBytes) bytes) numBytes s2 else s2)"

definition startMap :: "32 word \<Rightarrow> MicroCbor \<Rightarrow> MicroCbor" where
  "startMap numElements s =
     (if mReadOnly s \<or> mDepth s \<ge> CONFIG_MICROCBOR_MAX_NESTING then s\<lparr>mResult := -1\<rparr>
      else let d = mDepth s + 1;
               s1 = s\<lparr>mDepth := d,
                      mMapState := (mMapState s)
                        (d := \<lparr>mapStartPos = mDataOffset s, mapStartCount = numElements,
                               mapCount = 0\<rparr>)\<rparr>
           in encodeHeader kCborMap numElements s1)"

definition endMap :: "MicroCbor \<Rightarrow> MicroCbor" where
  "endMap s =
     (let m = mMapState s (mDepth s);
          s1 = (if mResult s = 0 \<and> ucast (mapCount m) \<noteq> mapStartCount m then
                  (if mapCount m < 24 then
                     s\<lparr>heap := poke (mBuf s + unat (mapStartPos m))
                                 (push_bit 5 kCborMap OR ucast (mapCount m)) (heap s)\<rparr>
                   else
                     s\<lparr>heap := poke (mBuf s + unat (mapStartPos m + 1)) (ucast (mapCount m))
                                 (poke (mBuf s + unat (mapStartPos m))
                                    (push_bit 5 kCborMap OR 24) (heap s))\<rparr>)
                else s)
      in s1\<lparr>mDepth := wrap8 (mDepth s1 - 1)\<rparr>)"

text \<open>\<open>startMap(const char *name, uint8_t numElements)\<close> does not pass its second
  argument on: it calls \<open>startMap()\<close>, whose default hint is 0.\<close>

definition startMap_named :: "cstr option \<Rightarrow> byte \<Rightarrow> MicroCbor \<Rightarrow> MicroCbor" where
  "startMap_named name numElements s = startMap 0 (encodeMapKey name s)"

text \<open>\<open>add<T>(name, value)\<close> for the integer types. The value is the mathematical
  integer; \<open>of_int\<close> is the conversion to the unsigned parameter of the encoder.\<close>

definition add_int :: "ity \<Rightarrow> cstr option \<Rightarrow> int \<Rightarrow> MicroCbor \<Rightarrow> MicroCbor" where
  "add_int T name v s =
     (let s1 = encodeMapKey name s;
          t = (if v < 0 then push_bit 5 kCborNegInt else push_bit 5 kCborPosInt);
          intValue = (if v < 0 then - 1 - v else v)
      in if sizeof T = 8 then encodeUInt64 (t OR 27) (of_int intValue) s1
         else if sizeof T = 4 then encodeUInt32 (t OR 26) (of_int intValue) s1
         else if sizeof T = 2 then encodeUInt16 (t OR 25) (of_int intValue) s1
         else encodeUInt8 (t OR 24) (of_int intValue) s1)"

definition add_bool :: "cstr option \<Rightarrow> bool \<Rightarrow> MicroCbor \<Rightarrow> MicroCbor" where
  "add_bool name v s =
     storeByte (if v then kCborTrue else kCborFalse) (reserveBytes 1 (encodeMapKey name s))"

definition add_string :: "cstr option \<Rightarrow> cstr \<Rightarrow> MicroCbor \<Rightarrow> MicroCbor" where
  "add_string name v s =
     (let s1 = encodeMapKey name s in encodeString v (mNullTerminate s1) s1)"

definition addMinimal :: "ity \<Rightarrow> cstr option \<Rightarrow> int \<Rightarrow> MicroCbor \<Rightarrow> MicroCbor" where
  "addMinimal T name v s =
     (let s1 = encodeMapKey name s
      in if v \<ge> 0 then encodeHeader kCborPosInt (of_int v) s1
         else encodeHeader kCborNegInt (of_int (- 1 - v)) s1)"

text \<open>\<open>add(name, float)\<close> and \<open>add(name, double)\<close> store the bit pattern of the value;
  the model takes the bit pattern.\<close>

definition add_float :: "cstr option \<Rightarrow> 32 word \<Rightarrow> MicroCbor \<Rightarrow> MicroCbor" where
  "add_float name bits s = encodeUInt32 kCborFloat32 bits (encodeMapKey name s)"

definition add_double :: "cstr option \<Rightarrow> 64 word \<Rightarrow> MicroCbor \<Rightarrow> MicroCbor" where
  "add_double name bits s = encodeUInt64 kCborFloat64 bits (encodeMapKey name s)"

text \<open>\<open>add(name, const T *value, numElements, align)\<close>: \<open>v\<close> is the memory at \<open>value\<close>,
  \<open>numElements * sizeof(T)\<close> bytes of it are copied. \<open>encodePaddedKey\<close> is the branch
  of the source that writes the key followed by \<open>paddingNeeded\<close> zero bytes.\<close>

definition encodePaddedKey :: "cstr \<Rightarrow> nat \<Rightarrow> MicroCbor \<Rightarrow> MicroCbor" where
  "encodePaddedKey nm paddingNeeded s =
     (let len = strlen nm;
          s1 = encodeHeader kCborUTF8String (of_nat (len + paddingNeeded)) s;
          s2 = reserveBytes (of_nat (len + paddingNeeded)) s1
      in if mResult s2 = 0 then
           put (map (char_at nm) [0..<len] @ replicate paddingNeeded 0)
               (of_nat (len + paddingNeeded)) s2
         else s2)"

definition add_array ::
    "elemT \<Rightarrow> cstr option \<Rightarrow> byte list \<Rightarrow> 32 word \<Rightarrow> bool \<Rightarrow> MicroCbor \<Rightarrow> MicroCbor" where
  "add_array T name v numElements align s =
     (let numRawBytes = unat numElements * elem_size T;
          s1 = (case name of
                  None \<Rightarrow> encodeMapKey name s
                | Some nm \<Rightarrow>
                    if align then
                      (let len = strlen nm;
                           preambleBytes = len + bytesForLength (of_nat len) + 2
                                           + bytesForLength (of_nat numRawBytes);
                           vectorOffset = unat (mBufBytesNeeded s) + preambleBytes;
                           alignBytes = elem_size T;
                           oddBytes = vectorOffset mod alignBytes
                       in if oddBytes = 0 then encodeMapKey name s
                          else encodePaddedKey nm (alignBytes - oddBytes) s)
                    else encodeMapKey name s);
          s2 = encodeTag (ucast (kCborTagInfo T)) s1
      in encodeBytes v (of_nat numRawBytes) s2)"

text \<open>A sequence of encode calls.\<close>

datatype enc_op =
    StartMap "32 word"
  | StartMapNamed "cstr option" byte
  | EndMap
  | AddInt ity "cstr option" int
  | AddBool "cstr option" bool
  | AddString "cstr option" cstr
  | AddMinimal ity "cstr option" int
  | AddFloat "cstr option" "32 word"
  | AddDouble "cstr option" "64 word"
  | AddArray elemT "cstr option" "byte list" "32 word" bool

fun encode_op :: "enc_op \<Rightarrow> MicroCbor \<Rightarrow> MicroCbor" where
  "encode_op (StartMap n) s = startMap n s"
| "encode_op (StartMapNamed name n) s = startMap_named name n s"
| "encode_op EndMap s = endMap s"
| "encode_op (AddInt T name v) s = add_int T name v s"
| "encode_op (AddBool name v) s = add_bool name v s"
| "encode_op (AddString name v) s = add_string name v s"
| "encode_op (AddMinimal T name v) s = addMinimal T name v s"
| "encode_op (AddFloat name v) s = add_float name v s"
| "encode_op (AddDouble name v) s = add_double name v s"
| "encode_op (AddArray T name v n align) s = add_array T name v n align s"

fun encode_ops :: "enc_op list \<Rightarrow> MicroCbor \<Rightarrow> MicroCbor" where
  "encode_ops [] s = s"
| "encode_ops (x # xs) s = encode_ops xs (encode_op x s)"

subsection \<open>The reader\<close>

text \<open>
  A decode call returns \<open>Inr\<close> of its result, or \<open>Inl\<close> of what stopped it:
  \<^item> \<open>OutOfBoundsRead a\<close>: the code reads the byte at address \<open>a\<close>, which is outside the
    memory the buffer lies in;
  \<^item> \<open>TableOverrun\<close>: the code indexes \<open>kCborheaderBytes\<close>, which has 28 entries, with a
    minor value of 28 to 31;
  \<^item> \<open>Indeterminate\<close>: the code uses a member of a \<open>TypeInfo\<close> built by
    \<open>TypeInfo(kCborError)\<close>, which initialises \<open>majorval\<close> only;
  \<^item> \<open>OutOfFuel\<close>: the model's bound on the depth of calls is used up (the code itself
    has no such bound).
\<close>

datatype fault = OutOfBoundsRead nat | TableOverrun | Indeterminate | OutOfFuel

definition and_then :: "fault + 'a \<Rightarrow> ('a \<Rightarrow> fault + 'b) \<Rightarrow> fault + 'b" where
  "and_then m f = (case m of Inl e \<Rightarrow> Inl e | Inr x \<Rightarrow> f x)"

definition peek :: "MicroCbor \<Rightarrow> nat \<Rightarrow> fault + byte" where
  "peek s a = (if a < length (heap s) then Inr (heap s ! a) else Inl (OutOfBoundsRead a))"

fun peeks :: "MicroCbor \<Rightarrow> nat \<Rightarrow> nat \<Rightarrow> fault + byte list" where
  "peeks s a 0 = Inr []"
| "peeks s a (Suc n) =
     and_then (peek s a) (\<lambda>b. and_then (peeks s (Suc a) n) (\<lambda>bs. Inr (b # bs)))"

text \<open>The value of big-endian bytes, as \<open>p[0] << 8 | p[1]\<close> and its longer forms
  compute it; the result type truncates.\<close>

definition be_value :: "byte list \<Rightarrow> 'a::len word" where
  "be_value bs = foldl (\<lambda>acc b. push_bit 8 acc OR ucast b) 0 bs"

text \<open>A \<open>TypeInfo\<close> is either the error descriptor or has all five members: \<open>tag\<close>,
  \<open>majorval\<close>, \<open>minorval\<close>, \<open>headerBytes\<close> and the address \<open>p\<close>.\<close>

datatype TypeInfo = TypeInfoError | TypeInfo "16 word" byte byte byte nat

fun majorval_of :: "TypeInfo \<Rightarrow> byte" where
  "majorval_of TypeInfoError = kCborError"
| "majorval_of (TypeInfo tg mj mn hb p) = mj"

text \<open>The table \<open>kCborheaderBytes[24 + 4]\<close>: 24 entries 1 for the inline minor values,
  then 2, 3, 5, 9 for the minor values 24 to 27.\<close>

definition kCborheaderBytes :: "byte list" where
  "kCborheaderBytes = replicate 24 1 @ [2, 3, 5, 9]"

definition headerBytesFor :: "byte \<Rightarrow> fault + byte" where
  "headerBytesFor minorval =
     (if unat minorval < length kCborheaderBytes then Inr (kCborheaderBytes ! unat minorval)
      else Inl TableOverrun)"

fun getFieldValue :: "MicroCbor \<Rightarrow> TypeInfo \<Rightarrow> fault + 32 word" where
  "getFieldValue s TypeInfoError = Inl Indeterminate"
| "getFieldValue s (TypeInfo tg mj mn hb p) =
     (if hb = 1 then Inr (ucast mn)
      else if hb = 2 then and_then (peeks s (p + 1) 1) (\<lambda>bs. Inr (be_value bs))
      else if hb = 3 then and_then (peeks s (p + 1) 2) (\<lambda>bs. Inr (be_value bs))
      else if hb = 5 then and_then (peeks s (p + 1) 4) (\<lambda>bs. Inr (be_value bs))
      else if hb = 9 then and_then (peeks s (p + 1) 8) (\<lambda>bs. Inr (be_value bs))
      else Inr 0)"

text \<open>\<open>getNextField\<close> and \<open>skipField\<close> call each other; \<open>skipPairs\<close> and \<open>skipItems\<close> are
  the two \<open>while (len--)\<close> loops of \<open>skipField\<close>. The first argument bounds the depth of
  calls.\<close>

fun getNextField :: "nat \<Rightarrow> MicroCbor \<Rightarrow> fault + (TypeInfo \<times> MicroCbor)"
and skipField :: "nat \<Rightarrow> TypeInfo \<Rightarrow> MicroCbor \<Rightarrow> fault + MicroCbor"
and skipPairs :: "nat \<Rightarrow> 32 word \<Rightarrow> MicroCbor \<Rightarrow> fault + MicroCbor"
and skipItems :: "nat \<Rightarrow> 32 word \<Rightarrow> MicroCbor \<Rightarrow> fault + MicroCbor" where
  "getNextField 0 s = Inl OutOfFuel"
| "getNextField (Suc n) s =
     (if mDataOffset s \<ge> mMaxBufLen s then Inr (TypeInfoError, s)
      else and_then (peek s (cursor s)) (\<lambda>b.
        let majorval = drop_bit 5 b; minorval = b AND 0x1f
        in and_then (headerBytesFor minorval) (\<lambda>headerBytes.
          if mDataOffset s + ucast headerBytes > mMaxBufLen s then Inr (TypeInfoError, s)
          else let field = TypeInfo kCborTagInvalid majorval minorval headerBytes (cursor s)
               in if majorval = kCborTag then
                    and_then (getFieldValue s field) (\<lambda>tg.
                    and_then (skipField n field s) (\<lambda>s1.
                    and_then (getNextField n s1) (\<lambda>(field1, s2).
                      case field1 of
                        TypeInfoError \<Rightarrow> Inr (TypeInfoError, s2)
                      | TypeInfo tg1 mj mn hb p \<Rightarrow> Inr (TypeInfo (ucast tg) mj mn hb p, s2))))
                  else Inr (field, s))))"
| "skipField 0 info s = Inl OutOfFuel"
| "skipField (Suc n) info s =
     and_then (getFieldValue s info) (\<lambda>len.
       case info of
         TypeInfoError \<Rightarrow> Inl Indeterminate
       | TypeInfo tg mj mn hb p \<Rightarrow>
           let s1 = s\<lparr>mDataOffset := mDataOffset s + ucast hb\<rparr>
           in if mDataOffset s1 \<ge> mMaxBufLen s1 then Inr s1
              else if mj = kCborByteString \<or> mj = kCborUTF8String then
                Inr (s1\<lparr>mDataOffset := mDataOffset s1 + len\<rparr>)
              else if mj = kCborMap then skipPairs n len s1
              else if mj = kCborArray then skipItems n len s1
              else Inr s1)"
| "skipPairs 0 len s = Inl OutOfFuel"
| "skipPairs (Suc n) len s =
     (if len = 0 then Inr s
      else and_then (getNextField n s) (\<lambda>(key, s1).
           and_then (skipField n key s1) (\<lambda>s2.
           and_then (getNextField n s2) (\<lambda>(val, s3).
           and_then (skipField n val s3) (\<lambda>s4.
             skipPairs n (len - 1) s4)))))"
| "skipItems 0 len s = Inl OutOfFuel"
| "skipItems (Suc n) len s =
     (if len = 0 then Inr s
      else and_then (getNextField n s) (\<lambda>(field, s1).
           and_then (skipField n field s1) (\<lambda>s2.
             skipItems n (len - 1) s2)))"

text \<open>\<open>strncmp(name, key, n) == 0\<close>, where \<open>key\<close> is an address: the bytes are compared
  one by one up to the first difference, the end of \<open>name\<close>, or \<open>n\<close> bytes.\<close>

fun strncmp_eq :: "MicroCbor \<Rightarrow> cstr \<Rightarrow> nat \<Rightarrow> nat \<Rightarrow> nat \<Rightarrow> fault + bool" where
  "strncmp_eq s name i key 0 = Inr True"
| "strncmp_eq s name i key (Suc n) =
     and_then (peek s (key + i)) (\<lambda>c2.
       let c1 = char_at name i
       in if c1 \<noteq> c2 then Inr False
          else if c1 = 0 then Inr True
          else strncmp_eq s name (Suc i) key n)"

text \<open>The loop of \<open>findElement\<close>. \<open>hb\<close> is \<open>info.headerBytes\<close> of the map's own header,
  which the loop adds to the cursor to address the bytes of a key.\<close>

fun findLoop ::
    "nat \<Rightarrow> cstr \<Rightarrow> byte \<Rightarrow> 32 word \<Rightarrow> 32 word \<Rightarrow> MicroCbor \<Rightarrow> fault + (TypeInfo \<times> MicroCbor)" where
  "findLoop 0 name hb mapOffset numItems s = Inl OutOfFuel"
| "findLoop (Suc n) name hb mapOffset numItems s =
     (if numItems = 0 then Inr (TypeInfoError, s\<lparr>mDataOffset := mapOffset\<rparr>)
      else and_then (getNextField n s) (\<lambda>(sf, s1).
           and_then (getFieldValue s1 sf) (\<lambda>sLen.
           let key = cursor s1 + unat hb
           in and_then (if strlen name \<le> unat sLen then strncmp_eq s1 name 0 key (unat sLen)
                        else Inr False) (\<lambda>found.
              if found then
                and_then (skipField n sf s1) (\<lambda>s2.
                and_then (getNextField n s2) (\<lambda>(val, s3).
                  Inr (val, s3\<lparr>mDataOffset := mapOffset\<rparr>)))
              else
                and_then (skipField n sf s1) (\<lambda>s2.
                and_then (getNextField n s2) (\<lambda>(val, s3).
                and_then (skipField n val s3) (\<lambda>s4.
                  findLoop n name hb mapOffset (numItems - 1) s4)))))))"

definition findElement :: "nat \<Rightarrow> cstr \<Rightarrow> MicroCbor \<Rightarrow> fault + (TypeInfo \<times> MicroCbor)" where
  "findElement n name s =
     (let mapOffset = mDataOffset s
      in and_then (getNextField n s) (\<lambda>(info, s1).
           case info of
             TypeInfoError \<Rightarrow> Inr (TypeInfoError, s1)
           | TypeInfo tg mj mn hb p \<Rightarrow>
               if mj \<noteq> kCborMap then Inr (TypeInfoError, s1)
               else and_then (getFieldValue s1 info) (\<lambda>numItems.
                      findLoop n name hb mapOffset numItems
                        (s1\<lparr>mDataOffset := mDataOffset s1 + ucast hb\<rparr>))))"


text \<open>\<open>getMap\<close>: the new object is built by \<open>MicroCbor(void *buf, maxBufLen)\<close>, whose
  \<open>nullTerminate\<close> defaults to \<open>true\<close>, or by \<open>MicroCbor()\<close>. Its indeterminate frames are
  taken from the parent.\<close>

definition getMap :: "nat \<Rightarrow> cstr \<Rightarrow> MicroCbor \<Rightarrow> fault + (MicroCbor \<times> MicroCbor)" where
  "getMap n name s =
     and_then (findElement n name s) (\<lambda>(element, s1).
       case element of
         TypeInfoError \<Rightarrow> Inr (MicroCbor_default (mMapState s1), s1)
       | TypeInfo tg mj mn hb p \<Rightarrow>
           if mj = kCborMap then
             Inr (MicroCbor_rw (mMapState s1) (heap s1) p (mMaxBufLen s1 - mDataOffset s1) True, s1)
           else Inr (MicroCbor_default (mMapState s1), s1))"

text \<open>The conversion \<open>T(value)\<close> of an unsigned value to the integer type \<open>T\<close>.\<close>

definition cast_to :: "ity \<Rightarrow> int \<Rightarrow> int" where
  "cast_to T v =
     (let w = 8 * sizeof T
      in if is_signed T then (v + 2 ^ (w - 1)) mod 2 ^ w - 2 ^ (w - 1) else v mod 2 ^ w)"

definition get_int :: "ity \<Rightarrow> nat \<Rightarrow> cstr \<Rightarrow> int \<Rightarrow> MicroCbor \<Rightarrow> fault + (int \<times> MicroCbor)" where
  "get_int T n name defaultValue s =
     and_then (findElement n name s) (\<lambda>(element, s1).
       case element of
         TypeInfoError \<Rightarrow> Inl Indeterminate
       | TypeInfo tg mj mn hb p \<Rightarrow>
           if hb = 9 then
             and_then (peeks s1 (p + 1) 8) (\<lambda>bs.
               let v = (be_value bs :: 64 word)
               in if mj = kCborPosInt then Inr (cast_to T (uint v), s1)
                  else if mj = kCborNegInt then Inr (cast_to T (uint (- v - 1)), s1)
                  else Inr (defaultValue, s1))
           else
             and_then (getFieldValue s1 element) (\<lambda>v.
               if mj = kCborPosInt then Inr (cast_to T (uint v), s1)
               else if mj = kCborNegInt then Inr (cast_to T (uint (- v - 1)), s1)
               else Inr (defaultValue, s1)))"

definition get_bool :: "nat \<Rightarrow> cstr \<Rightarrow> bool \<Rightarrow> MicroCbor \<Rightarrow> fault + (bool \<times> MicroCbor)" where
  "get_bool n name defaultValue s =
     and_then (findElement n name s) (\<lambda>(element, s1).
       case element of
         TypeInfoError \<Rightarrow> Inr (defaultValue, s1)
       | TypeInfo tg mj mn hb p \<Rightarrow>
           if mj = kCborSimple then
             (if mn = 20 then Inr (False, s1)
              else if mn = 21 then Inr (True, s1)
              else Inr (defaultValue, s1))
           else Inr (defaultValue, s1))"

text \<open>\<open>get<float>\<close> returns the bit pattern it read.\<close>

definition get_float :: "nat \<Rightarrow> cstr \<Rightarrow> 32 word \<Rightarrow> MicroCbor \<Rightarrow> fault + (32 word \<times> MicroCbor)" where
  "get_float n name defaultValue s =
     and_then (findElement n name s) (\<lambda>(element, s1).
       case element of
         TypeInfoError \<Rightarrow> Inr (defaultValue, s1)
       | TypeInfo tg mj mn hb p \<Rightarrow>
           if mj = kCborSimple then
             (if mn = 26 then and_then (getFieldValue s1 element) (\<lambda>f. Inr (f, s1))
              else Inr (defaultValue, s1))
           else Inr (defaultValue, s1))"

text \<open>\<open>get<const char *>\<close> returns an address in the buffer, or \<open>None\<close> for
  \<open>defaultValue\<close>.\<close>

definition get_string :: "nat \<Rightarrow> cstr \<Rightarrow> MicroCbor \<Rightarrow> fault + (nat option \<times> MicroCbor)" where
  "get_string n name s =
     and_then (findElement n name s) (\<lambda>(element, s1).
       case element of
         TypeInfoError \<Rightarrow> Inr (None, s1)
       | TypeInfo tg mj mn hb p \<Rightarrow>
           if mj = kCborUTF8String then Inr (Some (p + unat hb), s1) else Inr (None, s1))"

definition getLength :: "nat \<Rightarrow> cstr \<Rightarrow> MicroCbor \<Rightarrow> fault + (32 word \<times> MicroCbor)" where
  "getLength n name s =
     and_then (findElement n name s) (\<lambda>(element, s1).
       case element of
         TypeInfoError \<Rightarrow> Inr (0, s1)
       | TypeInfo tg mj mn hb p \<Rightarrow>
           and_then (getFieldValue s1 element) (\<lambda>len.
             if mj = kCborUTF8String then
               and_then (peek s1 (p + unat (ucast hb + len - 1 :: 32 word))) (\<lambda>b.
                 if b = 0 then Inr (len - 1, s1) else Inr (len, s1))
             else Inr (len, s1)))"

text \<open>\<open>getPointer<T>\<close> returns \<open>Some (length, p)\<close>, or \<open>None\<close> for
  \<open>{.length = 0, .p = defaultValue}\<close>.\<close>

definition getPointer ::
    "elemT \<Rightarrow> nat \<Rightarrow> cstr \<Rightarrow> MicroCbor \<Rightarrow> fault + ((nat \<times> nat) option \<times> MicroCbor)" where
  "getPointer T n name s =
     and_then (findElement n name s) (\<lambda>(element, s1).
       case element of
         TypeInfoError \<Rightarrow> Inl Indeterminate
       | TypeInfo tg mj mn hb p \<Rightarrow>
           if tg \<noteq> ucast (kCborTagInfo T) then Inr (None, s1)
           else and_then (getFieldValue s1 element) (\<lambda>len.
                  Inr (Some (unat len div elem_size T, p + unat hb), s1)))"


subsection \<open>Auxiliary definitions\<close>

text \<open>A frame store for concrete runs. The constructors leave \<open>mMapState\<close>
  indeterminate; a run that opens a map before it adds a field writes a frame before it
  reads it.\<close>

definition zero_frames :: "int \<Rightarrow> MapState" where
  "zero_frames = (\<lambda>_. \<lparr>mapStartPos = 0, mapStartCount = 0, mapCount = 0\<rparr>)"

text \<open>The value a decode call returns, without the object.\<close>

definition returned :: "fault + ('a \<times> MicroCbor) \<Rightarrow> fault + 'a" where
  "returned r = (case r of Inl e \<Rightarrow> Inl e | Inr (x, s) \<Rightarrow> Inr x)"

text \<open>What the byte count of a run depends on: not the buffer, its capacity or the error
  state.\<close>

definition counters :: "MicroCbor \<Rightarrow> 32 word \<times> int \<times> bool \<times> bool" where
  "counters s = (mBufBytesNeeded s, mDepth s, mReadOnly s, mNullTerminate s)"

text \<open>While no error is latched, every reserved byte has been written; and a count
  above the capacity has latched the error.\<close>

definition wr_inv :: "MicroCbor \<Rightarrow> bool" where
  "wr_inv s \<longleftrightarrow> (mResult s = 0 \<longrightarrow> mDataOffset s = mBufBytesNeeded s)
               \<and> (mMaxBufLen s < mBufBytesNeeded s \<longrightarrow> mResult s \<noteq> 0)"

text \<open>\<open>blocked s s'\<close>: in \<open>s'\<close> the error is latched and the memory is still that of
  \<open>s\<close>.\<close>

definition blocked :: "MicroCbor \<Rightarrow> MicroCbor \<Rightarrow> bool" where
  "blocked s s' \<longleftrightarrow> mResult s' \<noteq> 0 \<and> heap s' = heap s"

text \<open>The frames a run indexes. \<open>encodeMapKey\<close> increments
  \<open>mMapState[mDepth].mapCount\<close> unless the key is \<open>nullptr\<close> or empty; \<open>startMap\<close>, unless its
  guard refuses the call, writes \<open>mMapState[mDepth + 1]\<close>; \<open>endMap\<close> reads
  \<open>mMapState[mDepth]\<close>. \<open>op_in_array x s\<close> says that the call \<open>x\<close> made in state \<open>s\<close>
  indexes inside the array, and \<open>frames_in_array xs s\<close> that every call of the run \<open>xs\<close>
  from \<open>s\<close> does. For the array overload of \<open>add\<close> the condition is that of the other
  overloads, although its padded key leaves the frame alone.\<close>

definition in_array :: "int \<Rightarrow> bool" where
  "in_array i \<longleftrightarrow> 0 \<le> i \<and> i < CONFIG_MICROCBOR_MAX_NESTING"

definition key_in_array :: "cstr option \<Rightarrow> MicroCbor \<Rightarrow> bool" where
  "key_in_array name s =
     (case name of None \<Rightarrow> True | Some v \<Rightarrow> char_at v 0 = 0 \<or> in_array (mDepth s))"

definition startMap_in_array :: "MicroCbor \<Rightarrow> bool" where
  "startMap_in_array s \<longleftrightarrow>
     mReadOnly s \<or> CONFIG_MICROCBOR_MAX_NESTING \<le> mDepth s \<or> in_array (mDepth s + 1)"

fun op_in_array :: "enc_op \<Rightarrow> MicroCbor \<Rightarrow> bool" where
  "op_in_array (StartMap n) s = startMap_in_array s"
| "op_in_array (StartMapNamed name n) s =
     (key_in_array name s \<and> startMap_in_array (encodeMapKey name s))"
| "op_in_array EndMap s = in_array (mDepth s)"
| "op_in_array (AddInt T name v) s = key_in_array name s"
| "op_in_array (AddBool name v) s = key_in_array name s"
| "op_in_array (AddString name v) s = key_in_array name s"
| "op_in_array (AddMinimal T name v) s = key_in_array name s"
| "op_in_array (AddFloat name v) s = key_in_array name s"
| "op_in_array (AddDouble name v) s = key_in_array name s"
| "op_in_array (AddArray T name v n align) s = key_in_array name s"

fun frames_in_array :: "enc_op list \<Rightarrow> MicroCbor \<Rightarrow> bool" where
  "frames_in_array [] s = True"
| "frames_in_array (x # xs) s = (op_in_array x s \<and> frames_in_array xs (encode_op x s))"

section \<open>The writer's byte count\<close>

lemmas prim_defs = reserveBytes_def storeByte_def put_def Let_def

lemma counters_reserve_put:
  "counters s = counters t \<Longrightarrow>
   counters (if mResult (reserveBytes n s) = 0 then put bs n (reserveBytes n s) else reserveBytes n s)
   = counters (if mResult (reserveBytes n t) = 0 then put bs' n (reserveBytes n t) else reserveBytes n t)"
  by (simp add: counters_def prim_defs)

lemma counters_reserve_store:
  "counters s = counters t \<Longrightarrow>
   counters (storeByte v (reserveBytes 1 s)) = counters (storeByte v' (reserveBytes 1 t))"
  by (simp add: counters_def prim_defs)

lemma counters_reserve_store2:
  "counters s = counters t \<Longrightarrow>
   counters (storeByte w (storeByte v (reserveBytes 2 s))) = counters (storeByte w' (storeByte v' (reserveBytes 2 t)))"
  by (simp add: counters_def prim_defs)

lemma counters_reserve_store3:
  "counters s = counters t \<Longrightarrow>
   counters (storeByte x (storeByte w (storeByte v (reserveBytes 3 s)))) = counters (storeByte x' (storeByte w' (storeByte v' (reserveBytes 3 t))))"
  by (simp add: counters_def prim_defs)

lemma counters_encodeUInt8: "counters s = counters t \<Longrightarrow> counters (encodeUInt8 a b s) = counters (encodeUInt8 a b t)"
  unfolding encodeUInt8_def Let_def by (rule counters_reserve_put) 
lemma counters_encodeUInt16: "counters s = counters t \<Longrightarrow> counters (encodeUInt16 a b s) = counters (encodeUInt16 a b t)"
  unfolding encodeUInt16_def Let_def by (rule counters_reserve_put) 
lemma counters_encodeUInt32: "counters s = counters t \<Longrightarrow> counters (encodeUInt32 a b s) = counters (encodeUInt32 a b t)"
  unfolding encodeUInt32_def Let_def by (rule counters_reserve_put) 
lemma counters_encodeUInt64: "counters s = counters t \<Longrightarrow> counters (encodeUInt64 a b s) = counters (encodeUInt64 a b t)"
  unfolding encodeUInt64_def Let_def by (rule counters_reserve_put) 
lemma counters_encodeHeader: "counters s = counters t \<Longrightarrow> counters (encodeHeader a b s) = counters (encodeHeader a b t)"
  unfolding encodeHeader_def
  by (cases "b < 24"; cases "b < 256"; cases "b < 65536"; simp only: if_True if_False;
      (erule counters_reserve_store | erule counters_reserve_store2
       | erule counters_encodeUInt16 | erule counters_encodeUInt32))
lemma counters_encodeTag: "counters s = counters t \<Longrightarrow> counters (encodeTag a s) = counters (encodeTag a t)"
  unfolding encodeTag_def
  by (cases "a < 24"; cases "a < 256"; simp only: if_True if_False;
      (erule counters_reserve_store | erule counters_reserve_store2
       | erule counters_reserve_store3))


lemma inv_reserve_put:
  "wr_inv s \<Longrightarrow> wr_inv (if mResult (reserveBytes n s) = 0 then put bs n (reserveBytes n s) else reserveBytes n s)"
  by (auto simp: wr_inv_def prim_defs)
lemma inv_reserve_store:
  "wr_inv s \<Longrightarrow> wr_inv (storeByte v (reserveBytes 1 s))"
  by (auto simp: wr_inv_def prim_defs)
lemma inv_reserve_store2:
  "wr_inv s \<Longrightarrow> wr_inv (storeByte w (storeByte v (reserveBytes 2 s)))"
  by (auto simp: wr_inv_def prim_defs)
lemma inv_reserve_store3:
  "wr_inv s \<Longrightarrow> wr_inv (storeByte x (storeByte w (storeByte v (reserveBytes 3 s))))"
  by (auto simp: wr_inv_def prim_defs)

lemma inv_encodeUInt8: "wr_inv s \<Longrightarrow> wr_inv (encodeUInt8 a b s)"
  unfolding encodeUInt8_def Let_def by (rule inv_reserve_put)
lemma inv_encodeUInt16: "wr_inv s \<Longrightarrow> wr_inv (encodeUInt16 a b s)"
  unfolding encodeUInt16_def Let_def by (rule inv_reserve_put)
lemma inv_encodeUInt32: "wr_inv s \<Longrightarrow> wr_inv (encodeUInt32 a b s)"
  unfolding encodeUInt32_def Let_def by (rule inv_reserve_put)
lemma inv_encodeUInt64: "wr_inv s \<Longrightarrow> wr_inv (encodeUInt64 a b s)"
  unfolding encodeUInt64_def Let_def by (rule inv_reserve_put)
lemma inv_encodeHeader: "wr_inv s \<Longrightarrow> wr_inv (encodeHeader a b s)"
  unfolding encodeHeader_def
  by (cases "b < 24"; cases "b < 256"; cases "b < 65536"; simp only: if_True if_False;
      (erule inv_reserve_store | erule inv_reserve_store2
       | erule inv_encodeUInt16 | erule inv_encodeUInt32))
lemma inv_encodeTag: "wr_inv s \<Longrightarrow> wr_inv (encodeTag a s)"
  unfolding encodeTag_def
  by (cases "a < 24"; cases "a < 256"; simp only: if_True if_False;
      (erule inv_reserve_store | erule inv_reserve_store2 | erule inv_reserve_store3))

lemma counters_encodeString:
  "counters s = counters t \<Longrightarrow> counters (encodeString v nt s) = counters (encodeString v nt t)"
  unfolding encodeString_def Let_def
  by (rule counters_reserve_put, erule counters_encodeHeader)
lemma inv_encodeString: "wr_inv s \<Longrightarrow> wr_inv (encodeString v nt s)"
  unfolding encodeString_def Let_def
  by (rule inv_reserve_put, erule inv_encodeHeader)

lemma counters_encodeBytes:
  "counters s = counters t \<Longrightarrow> counters (encodeBytes v n s) = counters (encodeBytes v n t)"
  unfolding encodeBytes_def Let_def
  by (rule counters_reserve_put, erule counters_encodeHeader)
lemma inv_encodeBytes: "wr_inv s \<Longrightarrow> wr_inv (encodeBytes v n s)"
  unfolding encodeBytes_def Let_def
  by (rule inv_reserve_put, erule inv_encodeHeader)

lemma counters_bump: "counters s = counters t \<Longrightarrow> counters (bump_mapCount s) = counters (bump_mapCount t)"
  by (simp add: counters_def bump_mapCount_def)
lemma inv_bump: "wr_inv s \<Longrightarrow> wr_inv (bump_mapCount s)"
  by (simp add: wr_inv_def bump_mapCount_def)

lemma counters_encodeMapKey:
  "counters s = counters t \<Longrightarrow> counters (encodeMapKey name s) = counters (encodeMapKey name t)"
proof (cases name)
  case None
  assume "counters s = counters t"
  with None show ?thesis by (simp add: encodeMapKey_def)
next
  case (Some v)
  assume c: "counters s = counters t"
  show ?thesis
  proof (cases "char_at v 0 = 0")
    case True
    with Some c show ?thesis by (simp add: encodeMapKey_def)
  next
    case False
    have "counters (encodeString v False (bump_mapCount s)) = counters (encodeString v False (bump_mapCount t))"
      by (rule counters_encodeString, rule counters_bump, rule c)
    with Some False show ?thesis by (simp add: encodeMapKey_def)
  qed
qed

lemma inv_encodeMapKey: "wr_inv s \<Longrightarrow> wr_inv (encodeMapKey name s)"
proof (cases name)
  case None
  assume "wr_inv s"
  with None show ?thesis by (simp add: encodeMapKey_def)
next
  case (Some v)
  assume c: "wr_inv s"
  show ?thesis
  proof (cases "char_at v 0 = 0")
    case True
    with Some c show ?thesis by (simp add: encodeMapKey_def)
  next
    case False
    have "wr_inv (encodeString v False (bump_mapCount s))"
      by (rule inv_encodeString, rule inv_bump, rule c)
    with Some False show ?thesis by (simp add: encodeMapKey_def)
  qed
qed

lemma counters_startMap:
  "counters s = counters t \<Longrightarrow> counters (startMap n s) = counters (startMap n t)"
proof -
  assume c: "counters s = counters t"
  let ?f = "\<lambda>u. u\<lparr>mDepth := mDepth u + 1,
                      mMapState := (mMapState u)
                        (mDepth u + 1 := \<lparr>mapStartPos = mDataOffset u, mapStartCount = n,
                               mapCount = 0\<rparr>)\<rparr>"
  from c have "counters (?f s) = counters (?f t)" by (simp add: counters_def)
  then have h: "counters (encodeHeader kCborMap n (?f s)) = counters (encodeHeader kCborMap n (?f t))"
    by (rule counters_encodeHeader)
  from c have e: "counters (s\<lparr>mResult := -1\<rparr>) = counters (t\<lparr>mResult := -1\<rparr>)"
    by (simp add: counters_def)
  from c have g: "mReadOnly s = mReadOnly t" "mDepth s = mDepth t" by (simp_all add: counters_def)
  show ?thesis
  proof (cases "mReadOnly s \<or> mDepth s \<ge> CONFIG_MICROCBOR_MAX_NESTING")
    case True
    with g e show ?thesis by (simp add: startMap_def)
  next
    case False
    with g h show ?thesis by (simp add: startMap_def Let_def)
  qed
qed

lemma inv_startMap: "wr_inv s \<Longrightarrow> wr_inv (startMap n s)"
proof -
  assume i: "wr_inv s"
  let ?f = "\<lambda>u. u\<lparr>mDepth := mDepth u + 1,
                      mMapState := (mMapState u)
                        (mDepth u + 1 := \<lparr>mapStartPos = mDataOffset u, mapStartCount = n,
                               mapCount = 0\<rparr>)\<rparr>"
  from i have "wr_inv (?f s)" by (simp add: wr_inv_def)
  then have h: "wr_inv (encodeHeader kCborMap n (?f s))" by (rule inv_encodeHeader)
  from i have e: "wr_inv (s\<lparr>mResult := -1\<rparr>)" by (simp add: wr_inv_def)
  show ?thesis
  proof (cases "mReadOnly s \<or> mDepth s \<ge> CONFIG_MICROCBOR_MAX_NESTING")
    case True
    with e show ?thesis by (simp add: startMap_def)
  next
    case False
    with h show ?thesis by (simp add: startMap_def Let_def)
  qed
qed

lemma counters_endMap:
  "counters s = counters t \<Longrightarrow> counters (endMap s) = counters (endMap t)"
  by (simp add: counters_def endMap_def Let_def)
lemma inv_endMap: "wr_inv s \<Longrightarrow> wr_inv (endMap s)"
  by (auto simp: wr_inv_def endMap_def Let_def)


lemma counters_startMap_named:
  "counters s = counters t \<Longrightarrow> counters (startMap_named name n s) = counters (startMap_named name n t)"
  unfolding startMap_named_def by (rule counters_startMap, erule counters_encodeMapKey)
lemma inv_startMap_named: "wr_inv s \<Longrightarrow> wr_inv (startMap_named name n s)"
  unfolding startMap_named_def by (rule inv_startMap, erule inv_encodeMapKey)

lemma counters_add_int:
  "counters s = counters t \<Longrightarrow> counters (add_int T name v s) = counters (add_int T name v t)"
  unfolding add_int_def Let_def
  by (cases "sizeof T = 8"; cases "sizeof T = 4"; cases "sizeof T = 2"; simp only: if_True if_False simp_thms;
      (rule counters_encodeUInt64 | rule counters_encodeUInt32 | rule counters_encodeUInt16
       | rule counters_encodeUInt8); erule counters_encodeMapKey)
lemma inv_add_int: "wr_inv s \<Longrightarrow> wr_inv (add_int T name v s)"
  unfolding add_int_def Let_def
  by (cases "sizeof T = 8"; cases "sizeof T = 4"; cases "sizeof T = 2"; simp only: if_True if_False simp_thms;
      (rule inv_encodeUInt64 | rule inv_encodeUInt32 | rule inv_encodeUInt16
       | rule inv_encodeUInt8); erule inv_encodeMapKey)

lemma counters_add_bool:
  "counters s = counters t \<Longrightarrow> counters (add_bool name v s) = counters (add_bool name v t)"
  unfolding add_bool_def by (rule counters_reserve_store, erule counters_encodeMapKey)
lemma inv_add_bool: "wr_inv s \<Longrightarrow> wr_inv (add_bool name v s)"
  unfolding add_bool_def by (rule inv_reserve_store, erule inv_encodeMapKey)

lemma counters_add_string:
  assumes "counters s = counters t"
  shows "counters (add_string name v s) = counters (add_string name v t)"
proof -
  have k: "counters (encodeMapKey name s) = counters (encodeMapKey name t)"
    using assms by (rule counters_encodeMapKey)
  then have "mNullTerminate (encodeMapKey name s) = mNullTerminate (encodeMapKey name t)"
    by (simp add: counters_def)
  with counters_encodeString [OF k] show ?thesis by (simp add: add_string_def Let_def)
qed
lemma inv_add_string: "wr_inv s \<Longrightarrow> wr_inv (add_string name v s)"
  unfolding add_string_def Let_def by (rule inv_encodeString, erule inv_encodeMapKey)

lemma counters_addMinimal:
  "counters s = counters t \<Longrightarrow> counters (addMinimal T name v s) = counters (addMinimal T name v t)"
  unfolding addMinimal_def Let_def
  by (cases "v \<ge> 0"; simp only: if_True if_False; rule counters_encodeHeader;
      erule counters_encodeMapKey)
lemma inv_addMinimal: "wr_inv s \<Longrightarrow> wr_inv (addMinimal T name v s)"
  unfolding addMinimal_def Let_def
  by (cases "v \<ge> 0"; simp only: if_True if_False; rule inv_encodeHeader; erule inv_encodeMapKey)

lemma counters_add_float:
  "counters s = counters t \<Longrightarrow> counters (add_float name v s) = counters (add_float name v t)"
  unfolding add_float_def by (rule counters_encodeUInt32, erule counters_encodeMapKey)
lemma inv_add_float: "wr_inv s \<Longrightarrow> wr_inv (add_float name v s)"
  unfolding add_float_def by (rule inv_encodeUInt32, erule inv_encodeMapKey)

lemma counters_add_double:
  "counters s = counters t \<Longrightarrow> counters (add_double name v s) = counters (add_double name v t)"
  unfolding add_double_def by (rule counters_encodeUInt64, erule counters_encodeMapKey)
lemma inv_add_double: "wr_inv s \<Longrightarrow> wr_inv (add_double name v s)"
  unfolding add_double_def by (rule inv_encodeUInt64, erule inv_encodeMapKey)


lemma counters_encodePaddedKey:
  "counters s = counters t \<Longrightarrow>
   counters (encodePaddedKey nm k s) = counters (encodePaddedKey nm k t)"
  unfolding encodePaddedKey_def Let_def
  by (rule counters_reserve_put, erule counters_encodeHeader)
lemma inv_encodePaddedKey: "wr_inv s \<Longrightarrow> wr_inv (encodePaddedKey nm k s)"
  unfolding encodePaddedKey_def Let_def
  by (rule inv_reserve_put, erule inv_encodeHeader)

lemma counters_add_array:
  assumes c: "counters s = counters t"
  shows "counters (add_array T name v n align s) = counters (add_array T name v n align t)"
proof -
  have k: "counters (encodeMapKey name s) = counters (encodeMapKey name t)"
    using c by (rule counters_encodeMapKey)
  have nd: "mBufBytesNeeded s = mBufBytesNeeded t" using c by (simp add: counters_def)
  have pad: "counters (encodePaddedKey nm m s) = counters (encodePaddedKey nm m t)" for nm m
    using c by (rule counters_encodePaddedKey)
  have fin: "counters (encodeBytes v m (encodeTag g a)) = counters (encodeBytes v m (encodeTag g b))"
    if "counters a = counters b" for a b m g
    by (rule counters_encodeBytes, rule counters_encodeTag, rule that)
  show ?thesis
  proof (cases name)
    case None
    with fin [OF k] show ?thesis by (simp add: add_array_def)
  next
    case (Some nm)
    show ?thesis
    proof (cases "align \<and> (unat (mBufBytesNeeded t) + (strlen nm + bytesForLength (of_nat (strlen nm)) + 2
                  + bytesForLength (of_nat (unat n * elem_size T)))) mod elem_size T \<noteq> 0")
      case True
      with Some nd fin [OF pad] show ?thesis by (simp add: add_array_def Let_def)
    next
      case False
      with Some nd fin [OF k] show ?thesis by (auto simp add: add_array_def Let_def)
    qed
  qed
qed

lemma inv_add_array:
  assumes c: "wr_inv s"
  shows "wr_inv (add_array T name v n align s)"
proof -
  have k: "wr_inv (encodeMapKey name s)"
    using c by (rule inv_encodeMapKey)
  have pad: "wr_inv (encodePaddedKey nm m s)" for nm m
    using c by (rule inv_encodePaddedKey)
  have fin: "wr_inv (encodeBytes v m (encodeTag g a))" if "wr_inv a" for a m g
    by (rule inv_encodeBytes, rule inv_encodeTag, rule that)
  show ?thesis
  proof (cases name)
    case None
    with fin [OF k] show ?thesis by (simp add: add_array_def)
  next
    case (Some nm)
    show ?thesis
    proof (cases "align \<and> (unat (mBufBytesNeeded s) + (strlen nm + bytesForLength (of_nat (strlen nm)) + 2
                  + bytesForLength (of_nat (unat n * elem_size T)))) mod elem_size T \<noteq> 0")
      case True
      with Some fin [OF pad] show ?thesis by (simp add: add_array_def Let_def)
    next
      case False
      with Some fin [OF k] show ?thesis by (auto simp add: add_array_def Let_def)
    qed
  qed
qed

lemma counters_encode_op:
  "counters s = counters t \<Longrightarrow> counters (encode_op x s) = counters (encode_op x t)"
  by (cases x; simp only: encode_op.simps;
      (erule counters_startMap | erule counters_startMap_named | erule counters_endMap
       | erule counters_add_int | erule counters_add_bool | erule counters_add_string
       | erule counters_addMinimal | erule counters_add_float | erule counters_add_double
       | erule counters_add_array))

lemma inv_encode_op: "wr_inv s \<Longrightarrow> wr_inv (encode_op x s)"
  by (cases x; simp only: encode_op.simps;
      (erule inv_startMap | erule inv_startMap_named | erule inv_endMap
       | erule inv_add_int | erule inv_add_bool | erule inv_add_string
       | erule inv_addMinimal | erule inv_add_float | erule inv_add_double
       | erule inv_add_array))

lemma counters_encode_ops:
  "counters s = counters t \<Longrightarrow> counters (encode_ops xs s) = counters (encode_ops xs t)"
proof (induction xs arbitrary: s t)
  case Nil
  then show ?case by simp
next
  case (Cons x xs)
  have "counters (encode_op x s) = counters (encode_op x t)"
    using Cons.prems by (rule counters_encode_op)
  then have "counters (encode_ops xs (encode_op x s)) = counters (encode_ops xs (encode_op x t))"
    by (rule Cons.IH)
  then show ?case by simp
qed

lemma inv_encode_ops: "wr_inv s \<Longrightarrow> wr_inv (encode_ops xs s)"
proof (induction xs arbitrary: s)
  case Nil
  then show ?case by simp
next
  case (Cons x xs)
  have "wr_inv (encode_op x s)" using Cons.prems by (rule inv_encode_op)
  then have "wr_inv (encode_ops xs (encode_op x s))" by (rule Cons.IH)
  then show ?case by simp
qed

lemma maxlen_prims:
  "mMaxBufLen (reserveBytes n s) = mMaxBufLen s"
  "mMaxBufLen (storeByte b s) = mMaxBufLen s"
  "mMaxBufLen (put bs n s) = mMaxBufLen s"
  by (simp_all add: prim_defs)

lemma maxlen_encodeHeader: "mMaxBufLen (encodeHeader a b s) = mMaxBufLen s"
  by (simp add: encodeHeader_def encodeUInt16_def encodeUInt32_def maxlen_prims Let_def)
lemma maxlen_encodeTag: "mMaxBufLen (encodeTag a s) = mMaxBufLen s"
  by (simp add: encodeTag_def maxlen_prims)
lemma maxlen_encodeUInt: 
  "mMaxBufLen (encodeUInt8 a b s) = mMaxBufLen s"
  "mMaxBufLen (encodeUInt16 a c s) = mMaxBufLen s"
  "mMaxBufLen (encodeUInt32 a d s) = mMaxBufLen s"
  "mMaxBufLen (encodeUInt64 a e s) = mMaxBufLen s"
  by (simp_all add: encodeUInt8_def encodeUInt16_def encodeUInt32_def encodeUInt64_def maxlen_prims Let_def)
lemma maxlen_encodeString: "mMaxBufLen (encodeString v nt s) = mMaxBufLen s"
  by (simp add: encodeString_def maxlen_prims maxlen_encodeHeader Let_def)
lemma maxlen_encodeBytes: "mMaxBufLen (encodeBytes v n s) = mMaxBufLen s"
  by (simp add: encodeBytes_def maxlen_prims maxlen_encodeHeader Let_def)
lemma maxlen_encodePaddedKey: "mMaxBufLen (encodePaddedKey v n s) = mMaxBufLen s"
  by (simp add: encodePaddedKey_def maxlen_prims maxlen_encodeHeader Let_def)
lemma maxlen_encodeMapKey: "mMaxBufLen (encodeMapKey name s) = mMaxBufLen s"
  by (simp add: encodeMapKey_def maxlen_encodeString bump_mapCount_def split: option.split)
lemma maxlen_startMap: "mMaxBufLen (startMap n s) = mMaxBufLen s"
  by (simp add: startMap_def maxlen_encodeHeader Let_def)
lemma maxlen_endMap: "mMaxBufLen (endMap s) = mMaxBufLen s"
  by (simp add: endMap_def Let_def)
lemma maxlen_add_array: "mMaxBufLen (add_array T name v n align s) = mMaxBufLen s"
  by (simp add: add_array_def maxlen_encodeBytes maxlen_encodeTag maxlen_encodeMapKey
        maxlen_encodePaddedKey Let_def split: option.split)

lemma maxlen_encode_op: "mMaxBufLen (encode_op x s) = mMaxBufLen s"
  by (cases x)
     (simp_all add: maxlen_startMap startMap_named_def maxlen_endMap add_int_def add_bool_def
        add_string_def addMinimal_def add_float_def add_double_def maxlen_add_array
        maxlen_encodeMapKey maxlen_encodeUInt maxlen_encodeString maxlen_encodeHeader
        maxlen_prims Let_def)

lemma maxlen_encode_ops: "mMaxBufLen (encode_ops xs s) = mMaxBufLen s"
  by (induction xs arbitrary: s) (simp_all add: maxlen_encode_op)

subsection \<open>The frames a run indexes\<close>

lemma key_in_array_counters:
  "counters s = counters t \<Longrightarrow> key_in_array name s = key_in_array name t"
  by (cases name) (simp_all add: counters_def key_in_array_def)

lemma startMap_in_array_counters:
  "counters s = counters t \<Longrightarrow> startMap_in_array s = startMap_in_array t"
  by (simp add: counters_def startMap_in_array_def)

lemma op_in_array_counters:
  assumes "counters s = counters t"
  shows "op_in_array x s = op_in_array x t"
proof (cases x)
  case (StartMapNamed name n)
  have "startMap_in_array (encodeMapKey name s) = startMap_in_array (encodeMapKey name t)"
    by (rule startMap_in_array_counters, rule counters_encodeMapKey, rule assms)
  with StartMapNamed key_in_array_counters [OF assms] show ?thesis by simp
next
  case EndMap
  with assms show ?thesis by (simp add: counters_def)
qed (simp_all add: key_in_array_counters [OF assms] startMap_in_array_counters [OF assms])

lemma frames_in_array_counters:
  "counters s = counters t \<Longrightarrow> frames_in_array xs s = frames_in_array xs t"
proof (induction xs arbitrary: s t)
  case Nil
  show ?case by simp
next
  case (Cons x xs)
  have "counters (encode_op x s) = counters (encode_op x t)"
    using Cons.prems by (rule counters_encode_op)
  then have "frames_in_array xs (encode_op x s) = frames_in_array xs (encode_op x t)"
    by (rule Cons.IH)
  with op_in_array_counters [OF Cons.prems, of x] show ?case by simp
qed

subsection \<open>A latched error\<close>

text \<open>Once the error is latched, no call stores a byte or clears the error.\<close>

lemma blocked_trans: "blocked s t \<Longrightarrow> blocked t u \<Longrightarrow> blocked s u"
  by (simp add: blocked_def)

lemma blocked_reserveBytes: "mResult s \<noteq> 0 \<Longrightarrow> blocked s (reserveBytes n s)"
  by (simp add: blocked_def reserveBytes_def Let_def)
lemma blocked_storeByte: "mResult s \<noteq> 0 \<Longrightarrow> blocked s (storeByte v s)"
  by (simp add: blocked_def storeByte_def)
lemma blocked_reserve_put:
  "mResult s \<noteq> 0 \<Longrightarrow>
   blocked s (if mResult (reserveBytes n s) = 0 then put bs n (reserveBytes n s) else reserveBytes n s)"
  by (simp add: blocked_def reserveBytes_def Let_def)
lemma blocked_reserve_store:
  "mResult s \<noteq> 0 \<Longrightarrow> blocked s (storeByte v (reserveBytes 1 s))"
  by (simp add: blocked_def reserveBytes_def storeByte_def Let_def)
lemma blocked_reserve_store2:
  "mResult s \<noteq> 0 \<Longrightarrow> blocked s (storeByte w (storeByte v (reserveBytes 2 s)))"
  by (simp add: blocked_def reserveBytes_def storeByte_def Let_def)
lemma blocked_reserve_store3:
  "mResult s \<noteq> 0 \<Longrightarrow> blocked s (storeByte x (storeByte w (storeByte v (reserveBytes 3 s))))"
  by (simp add: blocked_def reserveBytes_def storeByte_def Let_def)

lemma blocked_encodeUInt8: "mResult s \<noteq> 0 \<Longrightarrow> blocked s (encodeUInt8 a b s)"
  unfolding encodeUInt8_def Let_def by (rule blocked_reserve_put)
lemma blocked_encodeUInt16: "mResult s \<noteq> 0 \<Longrightarrow> blocked s (encodeUInt16 a b s)"
  unfolding encodeUInt16_def Let_def by (rule blocked_reserve_put)
lemma blocked_encodeUInt32: "mResult s \<noteq> 0 \<Longrightarrow> blocked s (encodeUInt32 a b s)"
  unfolding encodeUInt32_def Let_def by (rule blocked_reserve_put)
lemma blocked_encodeUInt64: "mResult s \<noteq> 0 \<Longrightarrow> blocked s (encodeUInt64 a b s)"
  unfolding encodeUInt64_def Let_def by (rule blocked_reserve_put)
lemma blocked_encodeHeader: "mResult s \<noteq> 0 \<Longrightarrow> blocked s (encodeHeader a b s)"
  unfolding encodeHeader_def
  by (cases "b < 24"; cases "b < 256"; cases "b < 65536"; simp only: if_True if_False;
      (rule blocked_reserve_store | rule blocked_reserve_store2
       | rule blocked_encodeUInt16 | rule blocked_encodeUInt32); assumption)
lemma blocked_encodeTag: "mResult s \<noteq> 0 \<Longrightarrow> blocked s (encodeTag a s)"
  unfolding encodeTag_def
  by (cases "a < 24"; cases "a < 256"; simp only: if_True if_False;
      (rule blocked_reserve_store | rule blocked_reserve_store2 | rule blocked_reserve_store3);
      assumption)

text \<open>Two steps in a row.\<close>

lemma blocked_step:
  assumes "blocked s t" "mResult t \<noteq> 0 \<Longrightarrow> blocked t u"
  shows "blocked s u"
proof -
  from assms(1) have "mResult t \<noteq> 0" by (simp add: blocked_def)
  then have "blocked t u" by (rule assms(2))
  with assms(1) show ?thesis by (rule blocked_trans)
qed

lemma blocked_header_reserve_put:
  assumes "mResult s \<noteq> 0"
  shows "blocked s (if mResult (reserveBytes n (encodeHeader a b s)) = 0
                    then put bs n (reserveBytes n (encodeHeader a b s))
                    else reserveBytes n (encodeHeader a b s))"
proof -
  have "blocked s (encodeHeader a b s)" using assms by (rule blocked_encodeHeader)
  then show ?thesis by (rule blocked_step) (rule blocked_reserve_put)
qed

lemma blocked_encodeString: "mResult s \<noteq> 0 \<Longrightarrow> blocked s (encodeString v nt s)"
  unfolding encodeString_def Let_def by (rule blocked_header_reserve_put)
lemma blocked_encodeBytes: "mResult s \<noteq> 0 \<Longrightarrow> blocked s (encodeBytes v n s)"
  unfolding encodeBytes_def Let_def by (rule blocked_header_reserve_put)
lemma blocked_encodePaddedKey: "mResult s \<noteq> 0 \<Longrightarrow> blocked s (encodePaddedKey v n s)"
  unfolding encodePaddedKey_def Let_def by (rule blocked_header_reserve_put)

lemma blocked_bump: "mResult s \<noteq> 0 \<Longrightarrow> blocked s (bump_mapCount s)"
  by (simp add: blocked_def bump_mapCount_def)

lemma blocked_encodeMapKey: "mResult s \<noteq> 0 \<Longrightarrow> blocked s (encodeMapKey name s)"
proof (cases name)
  case None
  assume "mResult s \<noteq> 0"
  with None show ?thesis by (simp add: encodeMapKey_def blocked_def)
next
  case (Some v)
  assume c: "mResult s \<noteq> 0"
  show ?thesis
  proof (cases "char_at v 0 = 0")
    case True
    with Some c show ?thesis by (simp add: encodeMapKey_def blocked_def)
  next
    case False
    have "blocked s (bump_mapCount s)" using c by (rule blocked_bump)
    then have "blocked s (encodeString v False (bump_mapCount s))"
      by (rule blocked_step) (rule blocked_encodeString)
    with Some False show ?thesis by (simp add: encodeMapKey_def)
  qed
qed

lemma blocked_startMap: "mResult s \<noteq> 0 \<Longrightarrow> blocked s (startMap n s)"
proof -
  assume c: "mResult s \<noteq> 0"
  let ?f = "\<lambda>u. u\<lparr>mDepth := mDepth u + 1,
                      mMapState := (mMapState u)
                        (mDepth u + 1 := \<lparr>mapStartPos = mDataOffset u, mapStartCount = n,
                               mapCount = 0\<rparr>)\<rparr>"
  have "blocked s (?f s)" using c by (simp add: blocked_def)
  then have h: "blocked s (encodeHeader kCborMap n (?f s))"
    by (rule blocked_step) (rule blocked_encodeHeader)
  have e: "blocked s (s\<lparr>mResult := -1\<rparr>)" by (simp add: blocked_def)
  show ?thesis
  proof (cases "mReadOnly s \<or> mDepth s \<ge> CONFIG_MICROCBOR_MAX_NESTING")
    case True
    with e show ?thesis by (simp add: startMap_def)
  next
    case False
    with h show ?thesis by (simp add: startMap_def Let_def)
  qed
qed

lemma blocked_endMap: "mResult s \<noteq> 0 \<Longrightarrow> blocked s (endMap s)"
  by (simp add: blocked_def endMap_def Let_def)

lemma blocked_startMap_named: "mResult s \<noteq> 0 \<Longrightarrow> blocked s (startMap_named name n s)"
  unfolding startMap_named_def
  by (rule blocked_step [OF blocked_encodeMapKey]) (assumption, rule blocked_startMap)

lemma blocked_add_int: "mResult s \<noteq> 0 \<Longrightarrow> blocked s (add_int T name v s)"
  unfolding add_int_def Let_def
  by (cases "sizeof T = 8"; cases "sizeof T = 4"; cases "sizeof T = 2";
      simp only: if_True if_False simp_thms; rule blocked_step [OF blocked_encodeMapKey];
      (assumption | erule blocked_encodeUInt64 | erule blocked_encodeUInt32
       | erule blocked_encodeUInt16 | erule blocked_encodeUInt8))

lemma blocked_add_bool: "mResult s \<noteq> 0 \<Longrightarrow> blocked s (add_bool name v s)"
  unfolding add_bool_def
  by (rule blocked_step [OF blocked_encodeMapKey]) (assumption, rule blocked_reserve_store)

lemma blocked_add_string: "mResult s \<noteq> 0 \<Longrightarrow> blocked s (add_string name v s)"
  unfolding add_string_def Let_def
  by (rule blocked_step [OF blocked_encodeMapKey]) (assumption, rule blocked_encodeString)

lemma blocked_addMinimal: "mResult s \<noteq> 0 \<Longrightarrow> blocked s (addMinimal T name v s)"
  unfolding addMinimal_def Let_def
  by (cases "v \<ge> 0"; simp only: if_True if_False; rule blocked_step [OF blocked_encodeMapKey];
      (assumption | erule blocked_encodeHeader))

lemma blocked_add_float: "mResult s \<noteq> 0 \<Longrightarrow> blocked s (add_float name v s)"
  unfolding add_float_def
  by (rule blocked_step [OF blocked_encodeMapKey]) (assumption, rule blocked_encodeUInt32)
lemma blocked_add_double: "mResult s \<noteq> 0 \<Longrightarrow> blocked s (add_double name v s)"
  unfolding add_double_def
  by (rule blocked_step [OF blocked_encodeMapKey]) (assumption, rule blocked_encodeUInt64)

lemma blocked_add_array:
  assumes c: "mResult s \<noteq> 0"
  shows "blocked s (add_array T name v n align s)"
proof -
  have fin: "blocked s (encodeBytes v m (encodeTag g a))" if "blocked s a" for a m g
  proof -
    from that have "blocked s (encodeTag g a)" by (rule blocked_step) (rule blocked_encodeTag)
    then show ?thesis by (rule blocked_step) (rule blocked_encodeBytes)
  qed
  have k: "blocked s (encodeMapKey name s)" using c by (rule blocked_encodeMapKey)
  have pad: "blocked s (encodePaddedKey nm m s)" for nm m
    using c by (rule blocked_encodePaddedKey)
  show ?thesis
  proof (cases name)
    case None
    with fin [OF k] show ?thesis by (simp add: add_array_def)
  next
    case (Some nm)
    show ?thesis
    proof (cases "align \<and> (unat (mBufBytesNeeded s) + (strlen nm + bytesForLength (of_nat (strlen nm)) + 2
                  + bytesForLength (of_nat (unat n * elem_size T)))) mod elem_size T \<noteq> 0")
      case True
      with Some fin [OF pad] show ?thesis by (simp add: add_array_def Let_def)
    next
      case False
      with Some fin [OF k] show ?thesis by (auto simp add: add_array_def Let_def)
    qed
  qed
qed

lemma blocked_encode_op: "mResult s \<noteq> 0 \<Longrightarrow> blocked s (encode_op x s)"
  by (cases x; simp only: encode_op.simps;
      (erule blocked_startMap | erule blocked_startMap_named | erule blocked_endMap
       | erule blocked_add_int | erule blocked_add_bool | erule blocked_add_string
       | erule blocked_addMinimal | erule blocked_add_float | erule blocked_add_double
       | erule blocked_add_array))

lemma blocked_encode_ops: "mResult s \<noteq> 0 \<Longrightarrow> blocked s (encode_ops xs s)"
proof (induction xs arbitrary: s)
  case Nil
  then show ?case by (simp add: blocked_def)
next
  case (Cons x xs)
  have b: "blocked s (encode_op x s)" using Cons.prems by (rule blocked_encode_op)
  then have "mResult (encode_op x s) \<noteq> 0" by (simp add: blocked_def)
  then have "blocked (encode_op x s) (encode_ops xs (encode_op x s))" by (rule Cons.IH)
  with b show ?case by (simp add: blocked_def)
qed


subsection \<open>A buffer of length zero\<close>

text \<open>The first byte reserved on a buffer of length zero latches the error, before any
  store.\<close>

lemma empty_reserve_put:
  "mMaxBufLen s = 0 \<Longrightarrow> mBufBytesNeeded s = 0 \<Longrightarrow> n \<noteq> 0 \<Longrightarrow>
   blocked s (if mResult (reserveBytes n s) = 0 then put bs n (reserveBytes n s) else reserveBytes n s)"
  by (simp add: blocked_def reserveBytes_def Let_def word_gt_0)
lemma empty_reserve_store:
  "mMaxBufLen s = 0 \<Longrightarrow> mBufBytesNeeded s = 0 \<Longrightarrow> blocked s (storeByte v (reserveBytes 1 s))"
  by (simp add: blocked_def reserveBytes_def storeByte_def Let_def)
lemma empty_reserve_store2:
  "mMaxBufLen s = 0 \<Longrightarrow> mBufBytesNeeded s = 0 \<Longrightarrow>
   blocked s (storeByte w (storeByte v (reserveBytes 2 s)))"
  by (simp add: blocked_def reserveBytes_def storeByte_def Let_def)
lemma empty_reserve_store3:
  "mMaxBufLen s = 0 \<Longrightarrow> mBufBytesNeeded s = 0 \<Longrightarrow>
   blocked s (storeByte x (storeByte w (storeByte v (reserveBytes 3 s))))"
  by (simp add: blocked_def reserveBytes_def storeByte_def Let_def)

lemma empty_encodeUInt8:
  "mMaxBufLen s = 0 \<Longrightarrow> mBufBytesNeeded s = 0 \<Longrightarrow> blocked s (encodeUInt8 a b s)"
  unfolding encodeUInt8_def Let_def by (rule empty_reserve_put) simp_all
lemma empty_encodeUInt16:
  "mMaxBufLen s = 0 \<Longrightarrow> mBufBytesNeeded s = 0 \<Longrightarrow> blocked s (encodeUInt16 a b s)"
  unfolding encodeUInt16_def Let_def by (rule empty_reserve_put) simp_all
lemma empty_encodeUInt32:
  "mMaxBufLen s = 0 \<Longrightarrow> mBufBytesNeeded s = 0 \<Longrightarrow> blocked s (encodeUInt32 a b s)"
  unfolding encodeUInt32_def Let_def by (rule empty_reserve_put) simp_all
lemma empty_encodeUInt64:
  "mMaxBufLen s = 0 \<Longrightarrow> mBufBytesNeeded s = 0 \<Longrightarrow> blocked s (encodeUInt64 a b s)"
  unfolding encodeUInt64_def Let_def by (rule empty_reserve_put) simp_all

lemma empty_encodeHeader:
  "mMaxBufLen s = 0 \<Longrightarrow> mBufBytesNeeded s = 0 \<Longrightarrow> blocked s (encodeHeader a b s)"
  unfolding encodeHeader_def
  by (cases "b < 24"; cases "b < 256"; cases "b < 65536"; simp only: if_True if_False;
      (rule empty_reserve_store | rule empty_reserve_store2
       | rule empty_encodeUInt16 | rule empty_encodeUInt32); assumption)
lemma empty_encodeTag:
  "mMaxBufLen s = 0 \<Longrightarrow> mBufBytesNeeded s = 0 \<Longrightarrow> blocked s (encodeTag a s)"
  unfolding encodeTag_def
  by (cases "a < 24"; cases "a < 256"; simp only: if_True if_False;
      (rule empty_reserve_store | rule empty_reserve_store2 | rule empty_reserve_store3);
      assumption)

lemma empty_encodeString:
  assumes "mMaxBufLen s = 0" "mBufBytesNeeded s = 0"
  shows "blocked s (encodeString v nt s)"
proof -
  have "blocked s (encodeHeader a b s)" for a b using assms by (rule empty_encodeHeader)
  then show ?thesis
    unfolding encodeString_def Let_def by (rule blocked_step) (rule blocked_reserve_put)
qed
lemma empty_encodePaddedKey:
  assumes "mMaxBufLen s = 0" "mBufBytesNeeded s = 0"
  shows "blocked s (encodePaddedKey v k s)"
proof -
  have "blocked s (encodeHeader a b s)" for a b using assms by (rule empty_encodeHeader)
  then show ?thesis
    unfolding encodePaddedKey_def Let_def by (rule blocked_step) (rule blocked_reserve_put)
qed

lemma empty_startMap:
  assumes "mMaxBufLen s = 0" "mBufBytesNeeded s = 0"
  shows "blocked s (startMap n s)"
proof -
  let ?f = "\<lambda>u. u\<lparr>mDepth := mDepth u + 1,
                      mMapState := (mMapState u)
                        (mDepth u + 1 := \<lparr>mapStartPos = mDataOffset u, mapStartCount = n,
                               mapCount = 0\<rparr>)\<rparr>"
  have "blocked (?f s) (encodeHeader kCborMap n (?f s))"
    by (rule empty_encodeHeader) (simp_all add: assms)
  then have h: "blocked s (encodeHeader kCborMap n (?f s))" by (simp add: blocked_def)
  have e: "blocked s (s\<lparr>mResult := -1\<rparr>)" by (simp add: blocked_def)
  show ?thesis
  proof (cases "mReadOnly s \<or> mDepth s \<ge> CONFIG_MICROCBOR_MAX_NESTING")
    case True
    with e show ?thesis by (simp add: startMap_def)
  next
    case False
    with h show ?thesis by (simp add: startMap_def Let_def)
  qed
qed

text \<open>Outside any map a key that indexes no frame is \<open>nullptr\<close> or the empty string, and
  \<open>encodeMapKey\<close> returns at once.\<close>

lemma key_outside_map:
  assumes "key_in_array name s" "mDepth s = - 1"
  shows "encodeMapKey name s = s"
  using assms
  by (cases name)
     (simp_all add: key_in_array_def in_array_def encodeMapKey_def)

lemma empty_add_array:
  assumes e: "mMaxBufLen s = 0" "mBufBytesNeeded s = 0"
      and k: "encodeMapKey name s = s"
  shows "blocked s (add_array T name v n align s)"
proof -
  have fin: "blocked s (encodeBytes v m (encodeTag g a))" if "blocked s a" for a m g
  proof -
    from that have "blocked s (encodeTag g a)" by (rule blocked_step) (rule blocked_encodeTag)
    then show ?thesis by (rule blocked_step) (rule blocked_encodeBytes)
  qed
  have fin0: "blocked s (encodeBytes v m (encodeTag g s))" for m g
  proof -
    have "blocked s (encodeTag g s)" using e by (rule empty_encodeTag)
    then show ?thesis by (rule blocked_step) (rule blocked_encodeBytes)
  qed
  have pad: "blocked s (encodePaddedKey nm m s)" for nm m
    using e by (rule empty_encodePaddedKey)
  show ?thesis
  proof (cases name)
    case None
    with fin0 show ?thesis by (simp add: add_array_def encodeMapKey_def)
  next
    case (Some nm)
    show ?thesis
    proof (cases "align \<and> (unat (mBufBytesNeeded s) + (strlen nm + bytesForLength (of_nat (strlen nm)) + 2
                  + bytesForLength (of_nat (unat n * elem_size T)))) mod elem_size T \<noteq> 0")
      case True
      with Some fin [OF pad] show ?thesis by (simp add: add_array_def Let_def)
    next
      case False
      with Some k fin0 show ?thesis by (auto simp add: add_array_def Let_def)
    qed
  qed
qed

lemma empty_encode_op:
  assumes e: "mMaxBufLen s = 0" "mBufBytesNeeded s = 0"
      and d: "mDepth s = - 1"
      and a: "op_in_array x s"
  shows "blocked s (encode_op x s)"
proof (cases x)
  case (StartMap n)
  with e show ?thesis by (simp add: empty_startMap)
next
  case (StartMapNamed name n)
  with a d have "encodeMapKey name s = s" by (simp add: key_outside_map)
  with StartMapNamed e show ?thesis by (simp add: startMap_named_def empty_startMap)
next
  case EndMap
  with a d show ?thesis by (simp add: in_array_def)
next
  case (AddInt T name v)
  with a d have k: "encodeMapKey name s = s" by (simp add: key_outside_map)
  show ?thesis
    unfolding AddInt encode_op.simps add_int_def Let_def k
    by (cases "sizeof T = 8"; cases "sizeof T = 4"; cases "sizeof T = 2";
        simp only: if_True if_False simp_thms;
        (rule empty_encodeUInt64 | rule empty_encodeUInt32 | rule empty_encodeUInt16
         | rule empty_encodeUInt8); rule e)
next
  case (AddBool name v)
  with a d have k: "encodeMapKey name s = s" by (simp add: key_outside_map)
  show ?thesis
    unfolding AddBool encode_op.simps add_bool_def k by (rule empty_reserve_store; rule e)
next
  case (AddString name v)
  with a d have k: "encodeMapKey name s = s" by (simp add: key_outside_map)
  show ?thesis
    unfolding AddString encode_op.simps add_string_def Let_def k
    by (rule empty_encodeString; rule e)
next
  case (AddMinimal T name v)
  with a d have k: "encodeMapKey name s = s" by (simp add: key_outside_map)
  show ?thesis
    unfolding AddMinimal encode_op.simps addMinimal_def Let_def k
    by (cases "v \<ge> 0"; simp only: if_True if_False; rule empty_encodeHeader; rule e)
next
  case (AddFloat name v)
  with a d have k: "encodeMapKey name s = s" by (simp add: key_outside_map)
  show ?thesis
    unfolding AddFloat encode_op.simps add_float_def k by (rule empty_encodeUInt32; rule e)
next
  case (AddDouble name v)
  with a d have k: "encodeMapKey name s = s" by (simp add: key_outside_map)
  show ?thesis
    unfolding AddDouble encode_op.simps add_double_def k by (rule empty_encodeUInt64; rule e)
next
  case (AddArray T name v n align)
  with a d have k: "encodeMapKey name s = s" by (simp add: key_outside_map)
  show ?thesis
    unfolding AddArray encode_op.simps by (rule empty_add_array [OF e k])
qed

lemma empty_encode_ops:
  assumes "mMaxBufLen s = 0" "mBufBytesNeeded s = 0" "mDepth s = - 1"
      and "xs \<noteq> []" "frames_in_array xs s"
  shows "blocked s (encode_ops xs s)"
proof (cases xs)
  case Nil
  with assms(4) show ?thesis by simp
next
  case (Cons x ys)
  with assms(5) have "op_in_array x s" by simp
  with assms(1-3) have b: "blocked s (encode_op x s)" by (rule empty_encode_op)
  then have "blocked s (encode_ops ys (encode_op x s))"
    by (rule blocked_step) (rule blocked_encode_ops)
  with Cons show ?thesis by simp
qed

subsection \<open>Measuring on a buffer that is too small\<close>

text \<open>
  Claim C9, amended. Take a sequence of at least one encode call whose calls index
  \<open>mMapState\<close> inside the array, and run it on two freshly bound writable instances with
  the same null-termination flag. If the run on the first buffer ends with result 0 (the
  buffer was sufficiently large), and the second buffer has length zero or a capacity
  below the number of bytes the first run serialised, then the run on the second buffer
  ends with a nonzero result, its \<open>bytesNeeded()\<close> is exactly the first run's
  \<open>bytesSerialized()\<close>, and it indexes \<open>mMapState\<close> inside the array as well.
\<close>

theorem bytesNeeded_dry_run:
  assumes nonempty: "ops \<noteq> []"
      and frames: "frames_in_array ops (MicroCbor_rw fr h buf cap nt)"
      and big: "getResult (encode_ops ops (MicroCbor_rw fr h buf cap nt)) = 0"
      and small: "cap' = 0 \<or> cap' < bytesSerialized (encode_ops ops (MicroCbor_rw fr h buf cap nt))"
  shows "getResult (encode_ops ops (MicroCbor_rw fr' h' buf' cap' nt)) \<noteq> 0
       \<and> bytesNeeded (encode_ops ops (MicroCbor_rw fr' h' buf' cap' nt))
         = bytesSerialized (encode_ops ops (MicroCbor_rw fr h buf cap nt))
       \<and> frames_in_array ops (MicroCbor_rw fr' h' buf' cap' nt)"
proof -
  let ?B = "MicroCbor_rw fr h buf cap nt" and ?S = "MicroCbor_rw fr' h' buf' cap' nt"
  have c: "counters ?S = counters ?B"
    by (simp add: counters_def MicroCbor_rw_def initBuffer_def MicroCbor_object_def)
  then have "counters (encode_ops ops ?S) = counters (encode_ops ops ?B)"
    by (rule counters_encode_ops)
  then have nd: "mBufBytesNeeded (encode_ops ops ?S) = mBufBytesNeeded (encode_ops ops ?B)"
    by (simp add: counters_def)
  from frames_in_array_counters [OF c, of ops] frames have fS: "frames_in_array ops ?S" by simp
  have "wr_inv ?B"
    by (simp add: wr_inv_def MicroCbor_rw_def initBuffer_def MicroCbor_object_def)
  then have "wr_inv (encode_ops ops ?B)" by (rule inv_encode_ops)
  with big have eq: "mDataOffset (encode_ops ops ?B) = mBufBytesNeeded (encode_ops ops ?B)"
    by (simp add: wr_inv_def getResult_def)
  have "wr_inv ?S"
    by (simp add: wr_inv_def MicroCbor_rw_def initBuffer_def MicroCbor_object_def)
  then have iS: "wr_inv (encode_ops ops ?S)" by (rule inv_encode_ops)
  have mS: "mMaxBufLen (encode_ops ops ?S) = cap'"
    by (simp add: maxlen_encode_ops MicroCbor_rw_def initBuffer_def MicroCbor_object_def)
  have "mResult (encode_ops ops ?S) \<noteq> 0"
  proof (cases "cap' = 0")
    case True
    then have "mMaxBufLen ?S = 0" "mBufBytesNeeded ?S = 0" "mDepth ?S = - 1"
      by (simp_all add: MicroCbor_rw_def initBuffer_def MicroCbor_object_def)
    then have "blocked ?S (encode_ops ops ?S)" using nonempty fS by (rule empty_encode_ops)
    then show ?thesis by (simp add: blocked_def)
  next
    case False
    with small mS eq nd have "mMaxBufLen (encode_ops ops ?S) < mBufBytesNeeded (encode_ops ops ?S)"
      by (simp add: bytesSerialized_def)
    with iS show ?thesis by (simp add: wr_inv_def)
  qed
  with nd eq fS show ?thesis by (simp add: getResult_def bytesNeeded_def bytesSerialized_def)
qed

text \<open>The test \<open>basic\<close>: a map with one \<open>int\<close> field needs 8 bytes, measured on a
  zero-length buffer.\<close>

theorem bytesNeeded_dry_run_witness:
  "[StartMap 0, AddInt I32 (Some [0x69]) 12345, EndMap] \<noteq> []
   \<and> frames_in_array [StartMap 0, AddInt I32 (Some [0x69]) 12345, EndMap]
      (MicroCbor_rw zero_frames (replicate 100 0) 0 100 True)
   \<and> getResult (encode_ops [StartMap 0, AddInt I32 (Some [0x69]) 12345, EndMap]
      (MicroCbor_rw zero_frames (replicate 100 0) 0 100 True)) = 0
   \<and> getResult (encode_ops [StartMap 0, AddInt I32 (Some [0x69]) 12345, EndMap]
      (MicroCbor_rw zero_frames [] 0 0 True)) \<noteq> 0
   \<and> bytesNeeded (encode_ops [StartMap 0, AddInt I32 (Some [0x69]) 12345, EndMap]
      (MicroCbor_rw zero_frames [] 0 0 True)) = 8
   \<and> frames_in_array [StartMap 0, AddInt I32 (Some [0x69]) 12345, EndMap]
      (MicroCbor_rw zero_frames [] 0 0 True)"
proof -
  let ?ops = "[StartMap 0, AddInt I32 (Some [0x69]) 12345, EndMap]"
  let ?B = "MicroCbor_rw zero_frames (replicate 100 0) 0 100 True"
  have ne: "?ops \<noteq> []" by simp
  have fr: "frames_in_array ?ops ?B" by code_simp
  have big: "getResult (encode_ops ?ops ?B) = 0" by code_simp
  have n: "bytesSerialized (encode_ops ?ops ?B) = 8" by code_simp
  have small: "(0 :: 32 word) = 0 \<or> 0 < bytesSerialized (encode_ops ?ops ?B)" by simp
  from bytesNeeded_dry_run [OF ne fr big small, of zero_frames "[]" 0] fr big n
  show ?thesis by simp
qed

text \<open>
  Claim C9 as it is stated, for every sequence of encode calls, fails for the sequence of
  no call: on a zero-length buffer the result stays 0.
\<close>

theorem empty_run_keeps_result_zero:
  "getResult (encode_ops [] (MicroCbor_rw zero_frames [] 0 0 True)) = 0"
  by code_simp

text \<open>Runs that index \<open>mMapState\<close> outside the array: \<open>endMap\<close> with no map open reads
  \<open>mMapState[-1]\<close>, a keyed \<open>add\<close> with no map open increments \<open>mMapState[-1].mapCount\<close>,
  and the fifth \<open>startMap\<close> in a row writes \<open>mMapState[4]\<close>.\<close>

theorem runs_outside_array:
  "\<not> frames_in_array [EndMap, AddBool (Some [0x61]) True]
        (MicroCbor_rw zero_frames (replicate 8 0) 0 8 True)
   \<and> \<not> frames_in_array [AddBool (Some [0x61]) True, StartMap 0]
        (MicroCbor_rw zero_frames (replicate 8 0) 0 8 True)
   \<and> \<not> frames_in_array (replicate 5 (StartMap 0))
        (MicroCbor_rw zero_frames (replicate 8 0) 0 8 True)"
  by code_simp


section \<open>Runs on which the code departs from the specification\<close>

text \<open>
  Claim C1 (round trip of a scalar through \<open>startMap\<close>, \<open>add\<close>, \<open>endMap\<close> and \<open>get\<close>).
  With a key of 24 bytes the encode succeeds, and \<open>get<bool>\<close> with the same key on the same
  buffer returns the default \<open>false\<close>, not the stored \<open>true\<close>: a key of 24 bytes or more
  has a two-byte header, and \<open>findElement\<close> looks for its bytes one byte (the length of the
  map's header) after the start of the key's header.
\<close>

theorem roundtrip_fails_for_long_key:
  "getResult (encode_ops [StartMap 0, AddBool (Some (replicate 24 0x61)) True, EndMap]
      (MicroCbor_rw zero_frames (replicate 40 0) 0 40 True)) = 0
   \<and> returned (get_bool 10 (replicate 24 0x61) False
        (restart (encode_ops [StartMap 0, AddBool (Some (replicate 24 0x61)) True, EndMap]
           (MicroCbor_rw zero_frames (replicate 40 0) 0 40 True)))) = Inr False"
  by code_simp

text \<open>
  Claim C2 (no decode operation reads at or beyond the declared buffer length). The buffer
  holds two bytes, a map header announcing one pair and the header of a one-byte text
  key, and its declared length is 2. \<open>findElement\<close> compares the key's byte, at offset 2,
  with the name: it reads outside the buffer.
\<close>

theorem findElement_reads_past_buffer:
  "returned (findElement 10 [0x61] (MicroCbor_ro zero_frames [0xA1, 0x61] 0 2 False))
     = Inl (OutOfBoundsRead 2)"
  by code_simp

text \<open>
  Claim C3 (every mutating call on a read-only instance sets the error and writes
  nothing). On a freshly bound read-only instance \<open>add<uint8_t>(nullptr, 5)\<close> leaves the
  result 0 and writes the two bytes of the value into the buffer: only \<open>startMap\<close> tests
  \<open>mReadOnly\<close>.
\<close>

theorem add_writes_read_only_buffer:
  "(let s = add_int U8 None 5 (MicroCbor_ro zero_frames (replicate 8 0) 0 8 False)
    in mReadOnly s \<and> getResult s = 0 \<and> heap s = [0x18, 5, 0, 0, 0, 0, 0, 0])"
  by code_simp

text \<open>
  Claim C4 (at most \<open>CONFIG_MICROCBOR_MAX_NESTING\<close> maps are open; a \<open>startMap\<close> beyond
  that sets the error and writes nothing). Five calls of \<open>startMap\<close> in a row all succeed:
  the result is 0, five headers are written, and \<open>mDepth\<close> is
  \<open>CONFIG_MICROCBOR_MAX_NESTING\<close>, the index one past the last frame of \<open>mMapState\<close>.
\<close>

theorem fifth_startMap_accepted:
  "(let s = encode_ops (replicate 5 (StartMap 0))
              (MicroCbor_rw zero_frames (replicate 8 0) 0 8 True)
    in getResult s = 0 \<and> mDepth s = CONFIG_MICROCBOR_MAX_NESTING \<and> bytesSerialized s = 5
       \<and> heap s = [0xA0, 0xA0, 0xA0, 0xA0, 0xA0, 0, 0, 0])"
  by code_simp

text \<open>
  Claim C5 (after \<open>startMap(h)\<close>, N named adds and \<open>endMap\<close> the buffer decodes as a map
  of exactly N pairs). One named add of an \<open>int32_t\<close> array whose key gets a padding byte:
  the map's header still announces 0 pairs after \<open>endMap\<close>, as \<open>getNextField\<close> reads it.
\<close>

theorem padded_array_key_not_counted:
  "(let s = encode_ops [StartMap 0, AddArray EInt32 (Some [0x70, 0x74]) [1, 0, 0, 0] 1 True, EndMap]
              (MicroCbor_rw zero_frames (replicate 16 0) 0 16 True)
    in getResult s = 0
       \<and> heap s = [0xA0, 0x63, 0x70, 0x74, 0, 0xD8, 0x4E, 0x44, 1, 0, 0, 0, 0, 0, 0, 0]
       \<and> returned (getNextField 10 (restart s)) = Inr (TypeInfo 65535 kCborMap 0 1 0))"
  by code_simp

text \<open>
  Claim C6 (\<open>endMap\<close> rewrites only the bytes of the map's own header as \<open>startMap\<close>
  wrote it). \<open>startMap()\<close> writes a one-byte header at offset 0; after 24 named adds
  \<open>endMap\<close> writes a two-byte header at offsets 0 and 1, and so replaces the header byte
  \<open>0x61\<close> of the first key by the count \<open>0x18\<close>.
\<close>

theorem endMap_overwrites_first_key:
  "(let s = encode_ops (StartMap 0 # replicate 24 (AddInt U8 (Some [0x61]) 5))
              (MicroCbor_rw zero_frames (replicate 100 0) 0 100 True)
    in getResult s = 0 \<and> take 5 (heap s) = [0xA0, 0x61, 0x61, 0x18, 5]
       \<and> take 5 (heap (endMap s)) = [0xB8, 0x18, 0x61, 0x18, 5])"
  by code_simp

text \<open>
  Claim C7 (the navigator returned by \<open>getMap\<close> starts at the nested map's header and
  cannot reach beyond the parent's declared length). The parent's buffer has 8 bytes; the
  nested map's header is at offset 3 and announces two pairs, of which the buffer holds
  one. The child starts at offset 3 with the declared length 8 (the parent's length minus
  the parent's cursor, which \<open>findElement\<close> has reset to 0), and a lookup in the child reads
  the byte at offset 8 of the parent's buffer.
\<close>

theorem getMap_child_exceeds_parent:
  "(case getMap 10 [0x6D]
           (MicroCbor_ro zero_frames [0xA1, 0x61, 0x6D, 0xA2, 0x61, 0x78, 0x18, 0x01] 0 8 False) of
      Inl e \<Rightarrow> False
    | Inr (c, s) \<Rightarrow> mBuf c = 3 \<and> mMaxBufLen c = 8
         \<and> returned (get_bool 10 [0x79] False c) = Inl (OutOfBoundsRead 8))"
  by code_simp

text \<open>
  Claim C8 (the payload of an array added with a key and alignment enabled begins at an
  offset divisible by the element size). An \<open>int64_t\<close> array added after \<open>startMap()\<close> with
  a key of 23 bytes: four padding bytes make the key 27 bytes long, its header grows to two
  bytes, and the payload (after tag \<open>0xD8 0x4F\<close> and byte-string header \<open>0x48\<close>) begins at
  offset 33.
\<close>

theorem aligned_array_misaligned:
  "(let s = encode_ops [StartMap 0,
                AddArray EInt64 (Some (replicate 23 0x6B)) [1, 2, 3, 4, 5, 6, 7, 8] 1 True]
              (MicroCbor_rw zero_frames (replicate 48 0) 0 48 True)
    in getResult s = 0 \<and> bytesSerialized s = 41
       \<and> take 11 (drop 30 (heap s)) = [0xD8, 0x4F, 0x48, 1, 2, 3, 4, 5, 6, 7, 8]
       \<and> (33 :: nat) mod elem_size EInt64 = 1)"
  by code_simp

text \<open>
  Claim C10 (a lookup matches a stored key exactly when the name is no longer than the key
  and the key's bytes are the name, ended by the key's end or a zero byte). The map stores
  one key of 24 bytes; the lookup of the very same name returns the error descriptor.
\<close>

theorem stored_key_not_matched:
  "(let s = restart (encode_ops [StartMap 0, AddBool (Some (replicate 24 0x61)) True, EndMap]
              (MicroCbor_rw zero_frames (replicate 40 0) 0 40 True))
    in take 27 (heap s) = [0xA1, 0x78, 24] @ replicate 24 0x61
       \<and> returned (findElement 10 (replicate 24 0x61) s) = Inr TypeInfoError)"
  by code_simp

end
